theory Spec2Isabelle
  imports
    Main
    "HOL-Library.AList"
    "HOL-Library.Sublist"
    "HOL-Library.Char_ord"
    "HOL-Library.List_Lexorder"
begin

chapter \<open>The model of the code\<close>

section \<open>Python strings\<close>

text \<open>
  A Python \<open>str\<close> is a sequence of code points. The model is \<^typ>\<open>string\<close>, one
  \<^typ>\<open>char\<close> per code point, which covers the code points below 256 (ASCII and
  Latin-1); \<open>length\<close> is Python's \<open>len\<close>. Comparison of two strings (\<open><\<close>) is the
  lexicographic order on code points, as in Python.
\<close>

text \<open>\<open>s[a:b]\<close> for indices \<open>0 \<le> a\<close>, \<open>0 \<le> b\<close>: empty when \<open>b \<le> a\<close>, clipped at the end.\<close>

definition slice :: "string \<Rightarrow> nat \<Rightarrow> nat \<Rightarrow> string" where
  "slice s a b = take (b - a) (drop a s)"

text \<open>\<open>s.find(sub)\<close>: the lowest index where \<open>sub\<close> occurs, \<open>None\<close> for Python's \<open>-1\<close>.\<close>

fun find_str :: "string \<Rightarrow> string \<Rightarrow> nat option" where
  "find_str [] sub = (if sub = [] then Some 0 else None)"
| "find_str (c # cs) sub =
     (if prefix sub (c # cs) then Some 0 else map_option Suc (find_str cs sub))"

text \<open>\<open>s.find(sub, start)\<close> for \<open>0 \<le> start\<close>: the index is one of \<open>s\<close>.\<close>

definition find_from :: "string \<Rightarrow> string \<Rightarrow> nat \<Rightarrow> nat option" where
  "find_from s sub start =
     (if length s < start then None
      else map_option (\<lambda>i. i + start) (find_str (drop start s) sub))"


text \<open>
  \<open>str.isspace\<close> on one code point below 256: tab, line feed, vertical tab, form feed,
  carriage return, the separators \<open>0x1c\<close>..\<open>0x1f\<close>, space, \<open>0x85\<close> and \<open>0xa0\<close>.
\<close>

definition is_space :: "char \<Rightarrow> bool" where
  "is_space c = (of_char c \<in> set [9, 10, 11, 12, 13, 28, 29, 30, 31, 32, 133, 160 :: nat])"

text \<open>\<open>s.strip()\<close>.\<close>

definition strip :: "string \<Rightarrow> string" where
  "strip s = rev (dropWhile is_space (rev (dropWhile is_space s)))"

text \<open>
  \<open>s.lower()\<close> on code points below 256: \<open>A\<close>..\<open>Z\<close> and the Latin-1 capitals
  \<open>0xc0\<close>..\<open>0xde\<close> (but not the multiplication sign \<open>0xd7\<close>) move up by 32.
\<close>

definition lower_char :: "char \<Rightarrow> char" where
  "lower_char c =
     (let n = (of_char c :: nat)
      in if (65 \<le> n \<and> n \<le> 90) \<or> (192 \<le> n \<and> n \<le> 222 \<and> n \<noteq> 215)
         then char_of (n + 32) else c)"

definition lower :: "string \<Rightarrow> string" where
  "lower s = map lower_char s"

text \<open>\<open>str(n)\<close> for an integer \<open>n \<ge> 0\<close>: its decimal digits, no leading zero.\<close>

definition digit_char :: "nat \<Rightarrow> char" where
  "digit_char d = char_of (48 + d)"

fun str_nat_aux :: "nat \<Rightarrow> nat \<Rightarrow> string \<Rightarrow> string" where
  "str_nat_aux 0 n acc = acc"
| "str_nat_aux (Suc fuel) n acc =
     (if n < 10 then digit_char n # acc
      else str_nat_aux fuel (n div 10) (digit_char (n mod 10) # acc))"

definition str_nat :: "nat \<Rightarrow> string" where
  "str_nat n = str_nat_aux (Suc n) n []"

section \<open>The parsers of the student application (\<open>student-app/backend/parsers.py\<close>)\<close>

text \<open>
  \<open>parse_simple_xml_tag\<close>: the first \<open><tag>\<close> and the first \<open></tag>\<close> of the
  response, each searched from the start; the text between them, stripped; \<open>None\<close>
  when a tag is missing or the stripped text is empty.
\<close>

definition parse_simple_xml_tag :: "string \<Rightarrow> string \<Rightarrow> string option" where
  "parse_simple_xml_tag response_str tag_name =
     (let start_tag = ''<'' @ tag_name @ ''>'';
          end_tag = ''</'' @ tag_name @ ''>''
      in case (find_str response_str start_tag, find_str response_str end_tag) of
           (Some start_index, Some end_index) \<Rightarrow>
             (let content = strip (slice response_str (start_index + length start_tag) end_index)
              in if content = [] then None else Some content)
         | _ \<Rightarrow> None)"

text \<open>
  \<open>re.search(r'<tag>(.*?)</tag>', s, re.DOTALL)\<close>: the match starts at the first
  \<open><tag>\<close> (if no \<open></tag>\<close> follows it, none follows a later one), and the lazy
  group ends at the first \<open></tag>\<close> after it. The result is the end of the match and
  \<open>group(1)\<close>.
\<close>

definition search_block :: "string \<Rightarrow> string \<Rightarrow> (nat \<times> string) option" where
  "search_block tag s =
     (let start_tag = ''<'' @ tag @ ''>'';
          end_tag = ''</'' @ tag @ ''>''
      in case find_str s start_tag of
           None \<Rightarrow> None
         | Some i \<Rightarrow>
             (case find_from s end_tag (i + length start_tag) of
                None \<Rightarrow> None
              | Some j \<Rightarrow> Some (j + length end_tag, slice s (i + length start_tag) j)))"

text \<open>
  \<open>re.finditer(r'<tag>(.*?)</tag>', s, re.DOTALL)\<close>: the matches from left to right,
  each searched after the end of the one before; the list of their \<open>group(1)\<close>. The
  fuel counts the characters left, more than the matches that fit.
\<close>

fun finditer_fuel :: "nat \<Rightarrow> string \<Rightarrow> string \<Rightarrow> string list" where
  "finditer_fuel 0 tag s = []"
| "finditer_fuel (Suc fuel) tag s =
     (case search_block tag s of
        None \<Rightarrow> []
      | Some (e, content) \<Rightarrow> content # finditer_fuel fuel tag (drop e s))"

definition finditer_blocks :: "string \<Rightarrow> string \<Rightarrow> string list" where
  "finditer_blocks tag s = finditer_fuel (length s) tag s"

text \<open>
  A question dictionary. \<open>correct_answer\<close> is a string for multiple choice and fill
  blank, a boolean for true/false; a key that a dictionary does not have is \<open>Absent\<close>
  (\<open>options\<close>: the empty dictionary).
\<close>

datatype question_type = multiple_choice | true_false | fill_blank | short_answer | free_recall

datatype answer_value = Str string | Bool bool | Absent

record question =
  qid :: string
  qtext :: string
  options :: "(string \<times> string) list"
  correct_answer :: answer_value
  sample_answer :: "string option"
  qtype :: question_type

text \<open>
  \<open>_validate_multiple_choice_question\<close> returns \<open>(is_valid, error_message)\<close>; the
  message is one of four, kept here with the values the code formats into it.
\<close>

datatype mc_error =
  No_options_provided
  | No_correct_answer_provided
  | Correct_answer_not_found string "string list"
  | Option_has_empty_content string

definition validate_multiple_choice_question :: "question \<Rightarrow> bool \<times> mc_error option" where
  "validate_multiple_choice_question question_data =
     (if options question_data = [] then (False, Some No_options_provided)
      else case correct_answer question_data of
             Absent \<Rightarrow> (False, Some No_correct_answer_provided)
           | Bool b \<Rightarrow>
               if \<not> b then (False, Some No_correct_answer_provided)
               else (False, Some (Correct_answer_not_found ''True''
                                    (map fst (options question_data))))
           | Str a \<Rightarrow>
               if a = [] then (False, Some No_correct_answer_provided)
               else (case map_of (options question_data) a of
                       None \<Rightarrow>
                         (False, Some (Correct_answer_not_found a
                                         (map fst (options question_data))))
                     | Some v \<Rightarrow>
                         if v = [] then (False, Some (Option_has_empty_content a))
                         else (True, None)))"

text \<open>
  The options of one question block: the four tags read from the \<open><options>\<close> block,
  the missing ones removed; the empty dictionary when there is no such block.
\<close>

definition parse_options :: "string \<Rightarrow> (string \<times> string) list" where
  "parse_options question_content =
     (case search_block ''options'' question_content of
        None \<Rightarrow> []
      | Some (e, option_content) \<Rightarrow>
          List.map_filter
            (\<lambda>(k, tag). map_option (\<lambda>v. (k, v)) (parse_simple_xml_tag option_content tag))
            [(''a'', ''option_a''), (''b'', ''option_b''),
             (''c'', ''option_c''), (''d'', ''option_d'')])"

text \<open>
  One turn of the loop of \<open>_parse_multiple_choice_questions\<close>, for the \<open>i\<close>-th block:
  the dictionary \<open>question_data\<close> when text, answer and options are all there.
\<close>

definition mc_question_data :: "nat \<Rightarrow> string \<Rightarrow> question option" where
  "mc_question_data i question_content =
     (case (parse_simple_xml_tag question_content ''text'',
            parse_simple_xml_tag question_content ''answer'') of
        (Some t, Some a) \<Rightarrow>
          if parse_options question_content = [] then None
          else Some \<lparr>qid = str_nat i, qtext = t, options = parse_options question_content,
                     correct_answer = Str a, sample_answer = None, qtype = multiple_choice\<rparr>
      | _ \<Rightarrow> None)"

text \<open>
  \<open>_parse_multiple_choice_questions\<close>: the loop appends \<open>question_data\<close> itself when the
  validator accepts it, and nothing otherwise (the rest of the branch is logging).
\<close>

fun mc_loop :: "(nat \<times> string) list \<Rightarrow> question list \<Rightarrow> question list" where
  "mc_loop [] questions = questions"
| "mc_loop ((i, question_content) # rest) questions =
     (case mc_question_data i question_content of
        None \<Rightarrow> mc_loop rest questions
      | Some question_data \<Rightarrow>
          if fst (validate_multiple_choice_question question_data)
          then mc_loop rest (questions @ [question_data])
          else mc_loop rest questions)"

definition parse_multiple_choice_questions :: "string \<Rightarrow> question list" where
  "parse_multiple_choice_questions content =
     mc_loop (enumerate 1 (finditer_blocks ''question'' content)) []"

text \<open>
  The four other question parsers share one loop: text and answer must be there, and
  the dictionary appended differs in how the answer is stored.
\<close>

fun simple_loop ::
  "(nat \<Rightarrow> string \<Rightarrow> string \<Rightarrow> question) \<Rightarrow> (nat \<times> string) list \<Rightarrow> question list
     \<Rightarrow> question list" where
  "simple_loop mk [] questions = questions"
| "simple_loop mk ((i, question_content) # rest) questions =
     (case (parse_simple_xml_tag question_content ''text'',
            parse_simple_xml_tag question_content ''answer'') of
        (Some t, Some a) \<Rightarrow> simple_loop mk rest (questions @ [mk i t a])
      | _ \<Rightarrow> simple_loop mk rest questions)"

definition parse_true_false_questions :: "string \<Rightarrow> question list" where
  "parse_true_false_questions content =
     simple_loop
       (\<lambda>i t a. \<lparr>qid = str_nat i, qtext = t, options = [],
                 correct_answer = Bool (lower a = ''true''), sample_answer = None,
                 qtype = true_false\<rparr>)
       (enumerate 1 (finditer_blocks ''question'' content)) []"

definition parse_fill_blank_questions :: "string \<Rightarrow> question list" where
  "parse_fill_blank_questions content =
     simple_loop
       (\<lambda>i t a. \<lparr>qid = str_nat i, qtext = t, options = [],
                 correct_answer = Str a, sample_answer = None, qtype = fill_blank\<rparr>)
       (enumerate 1 (finditer_blocks ''question'' content)) []"

definition parse_short_answer_questions :: "string \<Rightarrow> question list" where
  "parse_short_answer_questions content =
     simple_loop
       (\<lambda>i t a. \<lparr>qid = str_nat i, qtext = t, options = [],
                 correct_answer = Absent, sample_answer = Some a, qtype = short_answer\<rparr>)
       (enumerate 1 (finditer_blocks ''question'' content)) []"

definition parse_free_recall_questions :: "string \<Rightarrow> question list" where
  "parse_free_recall_questions content =
     simple_loop
       (\<lambda>i t a. \<lparr>qid = str_nat i, qtext = t, options = [],
                 correct_answer = Absent, sample_answer = Some a, qtype = free_recall\<rparr>)
       (enumerate 1 (finditer_blocks ''question'' content)) []"

text \<open>
  The dictionary \<open>parse_questions\<close> returns: the five lists (the keys are always
  there) and \<open>total_questions\<close>.
\<close>

record questions_result =
  multiple_choice_qs :: "question list"
  true_false_qs :: "question list"
  fill_blank_qs :: "question list"
  short_answer_qs :: "question list"
  free_recall_qs :: "question list"
  total_questions :: nat

text \<open>What one category of a response yields: its block, parsed, or nothing without a block.\<close>

definition category_block :: "string \<Rightarrow> (string \<Rightarrow> question list) \<Rightarrow> string \<Rightarrow> question list" where
  "category_block tag parser questions_content =
     (case search_block tag questions_content of
        None \<Rightarrow> []
      | Some (e, block) \<Rightarrow> parser block)"

definition parse_questions :: "string \<Rightarrow> questions_result option" where
  "parse_questions response_str =
     (let mc = category_block ''multiple_choice'' parse_multiple_choice_questions response_str;
          tf = category_block ''true_false'' parse_true_false_questions response_str;
          fb = category_block ''fill_blank'' parse_fill_blank_questions response_str;
          sa = category_block ''short_answer'' parse_short_answer_questions response_str;
          fr = category_block ''free_recall'' parse_free_recall_questions response_str;
          total = length mc + length tf + length fb + length sa + length fr
      in if total = 0 then None
         else Some \<lparr>multiple_choice_qs = mc, true_false_qs = tf, fill_blank_qs = fb,
                    short_answer_qs = sa, free_recall_qs = fr, total_questions = total\<rparr>)"








definition int_of_digits :: "string \<Rightarrow> nat" where
  "int_of_digits ds = foldl (\<lambda>n c. 10 * n + ((of_char c :: nat) - 48)) 0 ds"





record parsed_section =
  section_number :: nat
  content :: string




text \<open>
  \<open>parse_answer_evaluation\<close>: the accepted values of \<open>is_correct\<close> and those that count
  as correct. The third token is \<open>s\<close> followed by i with acute accent, code point 237.
\<close>

definition is_correct_vocabulary :: "string list" where
  "is_correct_vocabulary =
     [''yes'', ''no'', [CHR ''s'', char_of (237 :: nat)], ''si'', ''true'', ''false'', ''1'', ''0'']"

definition is_correct_affirmative :: "string list" where
  "is_correct_affirmative =
     [''yes'', [CHR ''s'', char_of (237 :: nat)], ''si'', ''true'', ''1'']"

record answer_evaluation =
  is_correct :: bool
  feedback :: string

definition parse_answer_evaluation :: "string \<Rightarrow> answer_evaluation option" where
  "parse_answer_evaluation response_str =
     (if response_str = [] \<or> length (strip response_str) < 10 then None
      else case parse_simple_xml_tag response_str ''is_correct'' of
             None \<Rightarrow> None
           | Some is_correct_str \<Rightarrow>
               (case parse_simple_xml_tag response_str ''feedback'' of
                  None \<Rightarrow> None
                | Some fb \<Rightarrow>
                    (let is_correct_clean = strip (lower is_correct_str)
                     in if is_correct_clean \<notin> set is_correct_vocabulary then None
                        else Some \<lparr>is_correct = (is_correct_clean \<in> set is_correct_affirmative),
                                   feedback = strip fb\<rparr>)))"

text \<open>\<open>parse_challenge_feedback\<close>: the six fields of the block must all be there.\<close>

record challenge_feedback =
  delivered :: string
  strengths :: string
  areas_for_improvement :: string
  suggestions :: string
  overall_assessment :: string
  ready_to_submit :: bool

definition parse_challenge_feedback :: "string \<Rightarrow> challenge_feedback option" where
  "parse_challenge_feedback response_str =
     (case search_block ''challenge_feedback'' response_str of
        None \<Rightarrow> None
      | Some (e, feedback_content) \<Rightarrow>
          (case (parse_simple_xml_tag feedback_content ''delivered'',
                 parse_simple_xml_tag feedback_content ''strengths'',
                 parse_simple_xml_tag feedback_content ''areas_for_improvement'',
                 parse_simple_xml_tag feedback_content ''suggestions'',
                 parse_simple_xml_tag feedback_content ''overall_assessment'',
                 parse_simple_xml_tag feedback_content ''ready_to_submit'') of
             (Some d, Some st, Some ar, Some su, Some ov, Some ready_to_submit_str) \<Rightarrow>
               Some \<lparr>delivered = strip d, strengths = strip st,
                     areas_for_improvement = strip ar, suggestions = strip su,
                     overall_assessment = strip ov,
                     ready_to_submit = (strip (lower ready_to_submit_str) = ''yes'')\<rparr>
           | _ \<Rightarrow> None))"

text \<open>
  \<open>parse_challenges\<close>: the challenges of the \<open><challenges>\<close> block with all four
  fields. (Each dictionary also has the entry \<open>type\<close>, the same constant for all; it
  is left out.)
\<close>

record challenge =
  c_id :: string
  c_title :: string
  c_description :: string
  c_learning_goals :: string
  c_deliverables :: string

fun challenges_loop :: "(nat \<times> string) list \<Rightarrow> challenge list \<Rightarrow> challenge list" where
  "challenges_loop [] challenges = challenges"
| "challenges_loop ((i, challenge_content) # rest) challenges =
     (case (parse_simple_xml_tag challenge_content ''title'',
            parse_simple_xml_tag challenge_content ''description'',
            parse_simple_xml_tag challenge_content ''learning_goals'',
            parse_simple_xml_tag challenge_content ''deliverables'') of
        (Some t, Some d, Some g, Some dl) \<Rightarrow>
          challenges_loop rest
            (challenges @ [\<lparr>c_id = str_nat i, c_title = t, c_description = d,
                            c_learning_goals = g, c_deliverables = dl\<rparr>])
      | _ \<Rightarrow> challenges_loop rest challenges)"

record challenges_result =
  challenges :: "challenge list"
  total_challenges :: nat

definition parse_challenges :: "string \<Rightarrow> challenges_result option" where
  "parse_challenges response_str =
     (let found =
            (case search_block ''challenges'' response_str of
               None \<Rightarrow> []
             | Some (e, challenges_section) \<Rightarrow>
                 challenges_loop
                   (enumerate 1 (finditer_blocks ''challenge'' challenges_section)) [])
      in if found = [] then None
         else Some \<lparr>challenges = found, total_challenges = length found\<rparr>)"

section \<open>The parsers of the tutor application (\<open>tutor-app/backend/parsers.py\<close>)\<close>

text \<open>
  \<open>COMMON_TAG_TYPOS\<close>, in the order of the dictionary. (The literal names the key
  \<open>progresion\<close> twice, with the same value; a dictionary keeps its first place.)
\<close>

definition COMMON_TAG_TYPOS :: "(string \<times> string) list" where
  "COMMON_TAG_TYPOS =
     [(''recommendaions'', ''recommendations''),
      (''recommendaion'', ''recommendations''),
      (''recomendations'', ''recommendations''),
      (''recomendaions'', ''recommendations''),
      (''recommendtions'', ''recommendations''),
      (''recomendtions'', ''recommendations''),
      (''reccommendations'', ''recommendations''),
      (''reccomendations'', ''recommendations''),
      (''progrression'', ''progression''),
      (''progresion'', ''progression''),
      (''progresssion'', ''progression''),
      (''progreesion'', ''progression''),
      (''progresstion'', ''progression''),
      (''executiv_summary'', ''executive_summary''),
      (''executive_sumary'', ''executive_summary''),
      (''executiv_sumary'', ''executive_summary''),
      (''executive_summry'', ''executive_summary''),
      (''executve_summary'', ''executive_summary''),
      (''executiv_summery'', ''executive_summary''),
      (''priorit_focus'', ''priority_focus''),
      (''priority_focuss'', ''priority_focus''),
      (''priortiy_focus'', ''priority_focus''),
      (''priority_foccus'', ''priority_focus''),
      (''priorty_focus'', ''priority_focus''),
      (''prioritie_focus'', ''priority_focus''),
      (''findinggs'', ''findings''),
      (''findigns'', ''findings''),
      (''finidngs'', ''findings''),
      (''findngs'', ''findings''),
      (''findingss'', ''findings''),
      (''notess'', ''notes''),
      (''nots'', ''notes''),
      (''noets'', ''notes''),
      (''note'', ''notes'')]"

text \<open>The \<open>correction_type\<close> that \<open>find_best_tag_match\<close> returns beside the tag.\<close>

datatype correction = Typo | Fuzzy | Variant













section \<open>The parsers' claims in their own words\<close>

text \<open>
  The multiple choice records extracted from a block of questions, before validation:
  one for each \<open><question>\<close> block that has text, answer and options.
\<close>

definition mc_candidates :: "string \<Rightarrow> question list" where
  "mc_candidates s =
     List.map_filter (\<lambda>(i, question_content). mc_question_data i question_content)
       (enumerate 1 (finditer_blocks ''question'' s))"

text \<open>The \<open><question>\<close> blocks that have both a text and an answer, with their number.\<close>

definition text_and_answer :: "string \<Rightarrow> (nat \<times> string \<times> string) list" where
  "text_and_answer s =
     List.map_filter
       (\<lambda>(i, question_content).
          case (parse_simple_xml_tag question_content ''text'',
                parse_simple_xml_tag question_content ''answer'') of
            (Some t, Some a) \<Rightarrow> Some (i, t, a)
          | _ \<Rightarrow> None)
       (enumerate 1 (finditer_blocks ''question'' s))"








text \<open>The numbering from 1.\<close>

definition number_sections :: "string list \<Rightarrow> parsed_section list" where
  "number_sections texts =
     map (\<lambda>(i, t). \<lparr>section_number = i, content = t\<rparr>) (enumerate 1 texts)"


section \<open>The question generator (\<open>generate_questions.py\<close>)\<close>

text \<open>
  The keys of \<open>requirements\<close>, in the order of the dictionary, and the question types
  each one stands for (\<open>requirements_map\<close>). The counts are Python integers.
\<close>

datatype requirement_type =
  R_multiple_choice_true_false | R_fill_blank | R_short_answer | R_free_recall

definition requirement_types :: "requirement_type list" where
  "requirement_types =
     [R_multiple_choice_true_false, R_fill_blank, R_short_answer, R_free_recall]"

fun requirements :: "requirement_type \<Rightarrow> int" where
  "requirements R_multiple_choice_true_false = 3"
| "requirements R_fill_blank = 2"
| "requirements R_short_answer = 2"
| "requirements R_free_recall = 1"

fun requirements_map :: "requirement_type \<Rightarrow> question_type list" where
  "requirements_map R_multiple_choice_true_false = [multiple_choice, true_false]"
| "requirements_map R_fill_blank = [fill_blank]"
| "requirements_map R_short_answer = [short_answer]"
| "requirements_map R_free_recall = [free_recall]"

fun absolute_limits :: "requirement_type \<Rightarrow> int" where
  "absolute_limits R_multiple_choice_true_false = 3"
| "absolute_limits R_fill_blank = 2"
| "absolute_limits R_short_answer = 2"
| "absolute_limits R_free_recall = 1"

text \<open>\<open>result[question_type]\<close>, read and written.\<close>

fun get_questions :: "questions_result \<Rightarrow> question_type \<Rightarrow> question list" where
  "get_questions r multiple_choice = multiple_choice_qs r"
| "get_questions r true_false = true_false_qs r"
| "get_questions r fill_blank = fill_blank_qs r"
| "get_questions r short_answer = short_answer_qs r"
| "get_questions r free_recall = free_recall_qs r"

fun set_questions :: "questions_result \<Rightarrow> question_type \<Rightarrow> question list \<Rightarrow> questions_result" where
  "set_questions r multiple_choice qs = r\<lparr>multiple_choice_qs := qs\<rparr>"
| "set_questions r true_false qs = r\<lparr>true_false_qs := qs\<rparr>"
| "set_questions r fill_blank qs = r\<lparr>fill_blank_qs := qs\<rparr>"
| "set_questions r short_answer qs = r\<lparr>short_answer_qs := qs\<rparr>"
| "set_questions r free_recall qs = r\<lparr>free_recall_qs := qs\<rparr>"

text \<open>\<open>check_question_requirements\<close>: the dictionaries \<open>missing\<close>, \<open>current\<close>, \<open>overgenerated\<close>.\<close>

fun current_counts :: "questions_result \<Rightarrow> requirement_type \<Rightarrow> int" where
  "current_counts r R_multiple_choice_true_false =
     int (length (multiple_choice_qs r)) + int (length (true_false_qs r))"
| "current_counts r R_fill_blank = int (length (fill_blank_qs r))"
| "current_counts r R_short_answer = int (length (short_answer_qs r))"
| "current_counts r R_free_recall = int (length (free_recall_qs r))"

definition check_question_requirements ::
  "questions_result \<Rightarrow>
     (requirement_type \<times> int) list \<times> (requirement_type \<Rightarrow> int) \<times> (requirement_type \<times> int) list" where
  "check_question_requirements questions_result =
     (let current = current_counts questions_result
      in (map (\<lambda>t. (t, requirements t - current t))
            (filter (\<lambda>t. current t < requirements t) requirement_types),
          current,
          map (\<lambda>t. (t, current t - requirements t))
            (filter (\<lambda>t. \<not> current t < requirements t \<and> current t > requirements t)
               requirement_types)))"

text \<open>
  \<open>merge_questions\<close>. The innermost loop appends the first \<open>questions_to_add\<close>
  questions of the new list, each a copy with its \<open>id\<close> replaced.
\<close>

definition renumbered :: "question list \<Rightarrow> nat \<Rightarrow> nat \<Rightarrow> question list" where
  "renumbered new_questions next_id questions_to_add =
     map (\<lambda>i. (new_questions ! i)\<lparr>qid := str_nat (next_id + i)\<rparr>) [0..<questions_to_add]"

text \<open>The loop over the question types of one requirement, with \<open>remaining_needed\<close>.\<close>

fun merge_types ::
  "questions_result \<Rightarrow> question_type list \<Rightarrow> int \<Rightarrow> questions_result \<Rightarrow> questions_result" where
  "merge_types new_result [] remaining_needed existing_result = existing_result"
| "merge_types new_result (question_type # rest) remaining_needed existing_result =
     (if remaining_needed \<le> 0 then existing_result
      else if get_questions new_result question_type = []
      then merge_types new_result rest remaining_needed existing_result
      else
        (let next_id = length (get_questions existing_result question_type) + 1;
             questions_to_add =
               nat (min remaining_needed (int (length (get_questions new_result question_type))))
         in merge_types new_result rest (remaining_needed - int questions_to_add)
              (set_questions existing_result question_type
                 (get_questions existing_result question_type
                    @ renumbered (get_questions new_result question_type) next_id
                        questions_to_add))))"

text \<open>The loop over \<open>missing_requirements.items()\<close>.\<close>

fun merge_requirements ::
  "questions_result \<Rightarrow> (requirement_type \<times> int) list \<Rightarrow> questions_result \<Rightarrow> questions_result" where
  "merge_requirements new_result [] existing_result = existing_result"
| "merge_requirements new_result ((requirement_type, needed_count) # rest) existing_result =
     (if needed_count \<le> 0 then merge_requirements new_result rest existing_result
      else
        (let current_count =
               (\<Sum>qtype \<leftarrow> requirements_map requirement_type.
                   int (length (get_questions existing_result qtype)));
             max_allowed_to_add = absolute_limits requirement_type - current_count;
             remaining_needed = min needed_count max_allowed_to_add
         in if remaining_needed \<le> 0 then merge_requirements new_result rest existing_result
            else merge_requirements new_result rest
                   (merge_types new_result (requirements_map requirement_type)
                      remaining_needed existing_result)))"

definition count_all :: "questions_result \<Rightarrow> nat" where
  "count_all r =
     (\<Sum>qtype \<leftarrow> [multiple_choice, true_false, fill_blank, short_answer, free_recall].
         length (get_questions r qtype))"

definition merge_questions ::
  "questions_result \<Rightarrow> questions_result \<Rightarrow> (requirement_type \<times> int) list \<Rightarrow> questions_result" where
  "merge_questions existing_result new_result missing_requirements =
     (let merged = merge_requirements new_result missing_requirements existing_result
      in merged\<lparr>total_questions := count_all merged\<rparr>)"

text \<open>
  One call of \<open>service.generate\<close> with a parser either raises or returns: the parsed
  result when the parser accepts the response, and the raw response (not a dictionary)
  when it does not. \<open>Returns\<close> carries the response that decides.
\<close>

datatype generation = Raises | Returns string

text \<open>How the loop of \<open>main\<close> ends: one of its four \<open>break\<close>s, the attempts used up, or an exception.\<close>

datatype session_end =
  Perfect_result
  | Overgeneration_stop
  | All_required
  | Total_reached_but_missing
  | Attempts_used_up
  | Generation_raised

definition max_attempts :: nat where
  "max_attempts = 3"

text \<open>
  The body of the loop of \<open>main\<close> in \<open>generate_questions.py\<close> for one attempt, from
  the outcome of its call of \<open>service.generate\<close> and the \<open>final_result\<close> reached so
  far: the loop either stops (a \<open>break\<close>, or the exception that leaves \<open>main\<close>) or
  goes on to the next attempt, with the new \<open>final_result\<close>.
\<close>

datatype 'a attempt_outcome = Stop session_end "'a option" | Continue "'a option"

definition question_attempt ::
  "generation \<Rightarrow> questions_result option \<Rightarrow> questions_result attempt_outcome" where
  "question_attempt outcome final_result =
     (case outcome of
        Raises \<Rightarrow> Stop Generation_raised final_result
      | Returns response \<Rightarrow>
          (case parse_questions response of
             None \<Rightarrow> Continue final_result
           | Some result \<Rightarrow>
               (let merged =
                      (case final_result of
                         None \<Rightarrow> result
                       | Some accumulated \<Rightarrow>
                           (case check_question_requirements accumulated of
                              (missing_before_merge, current_before, overgenerated_before) \<Rightarrow>
                                if overgenerated_before \<noteq> [] then accumulated
                                else merge_questions accumulated result missing_before_merge))
                in case check_question_requirements merged of
                     (missing, current, overgenerated) \<Rightarrow>
                       if total_questions merged = 8 \<and> missing = []
                       then Stop Perfect_result (Some merged)
                       else if overgenerated \<noteq> [] \<and> total_questions merged \<ge> 8
                       then Stop Overgeneration_stop (Some merged)
                       else if missing = [] then Stop All_required (Some merged)
                       else if total_questions merged \<ge> 8
                       then Stop Total_reached_but_missing (Some merged)
                       else Continue (Some merged))))"

text \<open>
  The loop \<open>while generation_attempt <= max_attempts\<close>; \<open>generate\<close> gives the outcome of
  the call made in each attempt.
\<close>

function question_attempts ::
  "(nat \<Rightarrow> generation) \<Rightarrow> nat \<Rightarrow> questions_result option
     \<Rightarrow> session_end \<times> questions_result option" where
  "question_attempts generate generation_attempt final_result =
     (if \<not> generation_attempt \<le> max_attempts then (Attempts_used_up, final_result)
      else case question_attempt (generate generation_attempt) final_result of
             Stop how r \<Rightarrow> (how, r)
           | Continue r \<Rightarrow> question_attempts generate (generation_attempt + 1) r)"
  by pat_completeness auto
termination
  by (relation "measure (\<lambda>(generate, generation_attempt, final_result).
        Suc max_attempts - generation_attempt)") auto

definition question_session :: "(nat \<Rightarrow> generation) \<Rightarrow> session_end \<times> questions_result option" where
  "question_session generate = question_attempts generate 1 None"

text \<open>
  The first batch of a session: the result of the first attempt whose response parses,
  when no call raises before it.
\<close>

fun first_batch :: "(nat \<Rightarrow> generation) \<Rightarrow> nat list \<Rightarrow> questions_result option" where
  "first_batch generate [] = None"
| "first_batch generate (k # ks) =
     (case generate k of
        Raises \<Rightarrow> None
      | Returns response \<Rightarrow>
          (case parse_questions response of
             Some result \<Rightarrow> Some result
           | None \<Rightarrow> first_batch generate ks))"

text \<open>
  The claims in their own words. The deficit of a requirement before a merge; the
  requirement a question type counts for; and the number of questions of each type
  that a merge is to append: the deficit or what the new batch has, whichever is less,
  with multiple choice served before true/false from their common deficit.
\<close>

definition deficit :: "questions_result \<Rightarrow> requirement_type \<Rightarrow> int" where
  "deficit existing t = max 0 (requirements t - current_counts existing t)"

fun requirement_of :: "question_type \<Rightarrow> requirement_type" where
  "requirement_of multiple_choice = R_multiple_choice_true_false"
| "requirement_of true_false = R_multiple_choice_true_false"
| "requirement_of fill_blank = R_fill_blank"
| "requirement_of short_answer = R_short_answer"
| "requirement_of free_recall = R_free_recall"

fun planned :: "questions_result \<Rightarrow> questions_result \<Rightarrow> question_type \<Rightarrow> nat" where
  "planned existing new multiple_choice =
     nat (min (deficit existing R_multiple_choice_true_false)
            (int (length (multiple_choice_qs new))))"
| "planned existing new true_false =
     nat (min (deficit existing R_multiple_choice_true_false
                 - min (deficit existing R_multiple_choice_true_false)
                     (int (length (multiple_choice_qs new))))
            (int (length (true_false_qs new))))"
| "planned existing new fill_blank =
     nat (min (deficit existing R_fill_blank) (int (length (fill_blank_qs new))))"
| "planned existing new short_answer =
     nat (min (deficit existing R_short_answer) (int (length (short_answer_qs new))))"
| "planned existing new free_recall =
     nat (min (deficit existing R_free_recall) (int (length (free_recall_qs new))))"

text \<open>The \<open>final_result\<close> an attempt leaves, whether the loop stops or goes on.\<close>

fun result_of :: "'a attempt_outcome \<Rightarrow> 'a option" where
  "result_of (Stop how r) = r"
| "result_of (Continue r) = r"

section \<open>The challenge generator (\<open>generate_challenges.py\<close>)\<close>

definition required_challenges :: int where
  "required_challenges = 5"

definition check_challenge_requirements :: "challenges_result \<Rightarrow> int \<times> int" where
  "check_challenge_requirements challenges_result =
     (let current_challenges = int (length (challenges challenges_result))
      in (max 0 (required_challenges - current_challenges), current_challenges))"

definition renumbered_challenges :: "challenge list \<Rightarrow> nat \<Rightarrow> nat \<Rightarrow> challenge list" where
  "renumbered_challenges new_challenges next_id challenges_to_add =
     map (\<lambda>i. (new_challenges ! i)\<lparr>c_id := str_nat (next_id + i)\<rparr>) [0..<challenges_to_add]"

definition merge_challenges ::
  "challenges_result \<Rightarrow> challenges_result \<Rightarrow> int \<Rightarrow> challenges_result" where
  "merge_challenges existing_result new_result missing_count =
     (if missing_count \<le> 0 then existing_result
      else
        (let next_id = length (challenges existing_result) + 1;
             appended =
               (if challenges new_result \<noteq> []
                then challenges existing_result
                       @ renumbered_challenges (challenges new_result) next_id
                           (nat (min missing_count (int (length (challenges new_result)))))
                else challenges existing_result)
         in \<lparr>challenges = appended, total_challenges = length appended\<rparr>))"

definition challenge_attempt ::
  "generation \<Rightarrow> challenges_result option \<Rightarrow> challenges_result attempt_outcome" where
  "challenge_attempt outcome final_result =
     (case outcome of
        Raises \<Rightarrow> Stop Generation_raised final_result
      | Returns response \<Rightarrow>
          (case parse_challenges response of
             None \<Rightarrow> Continue final_result
           | Some result \<Rightarrow>
               (let merged =
                      (case final_result of
                         None \<Rightarrow> result
                       | Some accumulated \<Rightarrow>
                           merge_challenges accumulated result
                             (fst (check_challenge_requirements accumulated)))
                in if fst (check_challenge_requirements merged) = 0
                   then Stop All_required (Some merged)
                   else Continue (Some merged))))"

function challenge_attempts ::
  "(nat \<Rightarrow> generation) \<Rightarrow> nat \<Rightarrow> challenges_result option
     \<Rightarrow> session_end \<times> challenges_result option" where
  "challenge_attempts generate generation_attempt final_result =
     (if \<not> generation_attempt \<le> max_attempts then (Attempts_used_up, final_result)
      else case challenge_attempt (generate generation_attempt) final_result of
             Stop how r \<Rightarrow> (how, r)
           | Continue r \<Rightarrow> challenge_attempts generate (generation_attempt + 1) r)"
  by pat_completeness auto
termination
  by (relation "measure (\<lambda>(generate, generation_attempt, final_result).
        Suc max_attempts - generation_attempt)") auto

definition challenge_session :: "(nat \<Rightarrow> generation) \<Rightarrow> session_end \<times> challenges_result option" where
  "challenge_session generate = challenge_attempts generate 1 None"

fun first_challenge_batch :: "(nat \<Rightarrow> generation) \<Rightarrow> nat list \<Rightarrow> challenges_result option" where
  "first_challenge_batch generate [] = None"
| "first_challenge_batch generate (k # ks) =
     (case generate k of
        Raises \<Rightarrow> None
      | Returns response \<Rightarrow>
          (case parse_challenges response of
             Some result \<Rightarrow> Some result
           | None \<Rightarrow> first_challenge_batch generate ks))"

section \<open>The feedback queue (\<open>feedback_queue.py\<close>)\<close>

datatype task_status =
  TASK_STATUS_PENDING | TASK_STATUS_PROCESSING | TASK_STATUS_COMPLETED | TASK_STATUS_ERROR

text \<open>
  One entry of \<open>task_results\<close>. \<open>created_at\<close>, \<open>started_at\<close> and \<open>completed_at\<close> are the
  ISO strings the code stores; the result of a task is kept as text.
\<close>

record task_info =
  status :: task_status
  created_at :: string
  challenge_id :: string
  challenge_title :: string
  has_images :: bool
  started_at :: "string option"
  completed_at :: "string option"
  result :: "string option"
  error :: "string option"

text \<open>A \<open>FeedbackTask\<close>: its id, the source file and the creation time.\<close>

record feedback_task =
  task_id :: string
  source_file :: string
  task_created_at :: string

text \<open>
  The module's globals: \<open>feedback_queue\<close> (\<open>None\<close> until
  \<open>initialize_feedback_queue\<close> has run, then an \<open>asyncio.Queue(maxsize=100)\<close>, here
  the list of the tasks waiting in it, oldest first) and the dictionary \<open>task_results\<close>,
  an association list in insertion order.
\<close>

record queue_state =
  feedback_queue :: "feedback_task list option"
  task_results :: "(string \<times> task_info) list"

definition maxsize :: nat where
  "maxsize = 100"

datatype queue_error =
  ValueError string
  | AttributeError
  | KeyError string

text \<open>
  \<open>create_feedback_task\<close>. The inputs the code takes from its environment are
  arguments: \<open>tid\<close> is \<open>str(uuid.uuid4())\<close>, \<open>now\<close> is \<open>datetime.now().isoformat()\<close>;
  \<open>cid\<close>, \<open>title\<close>, \<open>imgs\<close> are what the code reads from the submission. The record is
  written to \<open>task_results\<close> before \<open>put_nowait\<close>; \<open>put_nowait\<close> raises
  \<open>QueueFull\<close> when the queue holds \<open>maxsize\<close> tasks, and the handler deletes the record
  and raises \<open>ValueError\<close>. On a queue that was never initialised \<open>put_nowait\<close> is an
  attribute of \<open>None\<close>: that error is not caught and the record stays.
\<close>

definition create_feedback_task ::
  "queue_state \<Rightarrow> string \<Rightarrow> string \<Rightarrow> string \<Rightarrow> string \<Rightarrow> bool \<Rightarrow> string
     \<Rightarrow> (queue_error + string) \<times> queue_state" where
  "create_feedback_task st tid now cid title imgs src =
     (let task = \<lparr>task_id = tid, source_file = src, task_created_at = now\<rparr>;
          info = \<lparr>status = TASK_STATUS_PENDING, created_at = now, challenge_id = cid,
                  challenge_title = take 100 title, has_images = imgs,
                  started_at = None, completed_at = None, result = None, error = None\<rparr>;
          registered = AList.update tid info (task_results st)
      in case feedback_queue st of
           None \<Rightarrow> (Inl AttributeError, st\<lparr>task_results := registered\<rparr>)
         | Some q \<Rightarrow>
             if maxsize \<le> length q
             then (Inl (ValueError ''Feedback queue is full. Please try again later.''),
                   st\<lparr>task_results := AList.delete tid registered\<rparr>)
             else (Inr tid,
                   st\<lparr>feedback_queue := Some (q @ [task]), task_results := registered\<rparr>))"

text \<open>
  \<open>get_queue_position\<close>: the loop over \<open>task_results.items()\<close> with its counter, which
  starts at 1.
\<close>

fun position_loop :: "(string \<times> task_info) list \<Rightarrow> string \<Rightarrow> nat \<Rightarrow> nat" where
  "position_loop [] this_task_created position = position"
| "position_loop ((other_task_id, other_info) # rest) this_task_created position =
     position_loop rest this_task_created
       (if status other_info = TASK_STATUS_PENDING
           \<and> created_at other_info < this_task_created
        then position + 1 else position)"

definition get_queue_position :: "queue_state \<Rightarrow> string \<Rightarrow> queue_error + nat" where
  "get_queue_position st tid =
     (case map_of (task_results st) tid of
        None \<Rightarrow> Inl (KeyError tid)
      | Some info \<Rightarrow>
          if status info \<noteq> TASK_STATUS_PENDING then Inr 0
          else Inr (position_loop (task_results st) (created_at info) 1))"

text \<open>
  What \<open>get_task_status\<close> returns: the copy of the stored entry, and \<open>queue_position\<close>
  when the key is added. (The code adds \<open>estimated_wait_minutes\<close> beside it, a float
  that is left out here.)
\<close>

record status_view =
  task :: task_info
  queue_position :: "nat option"

definition get_task_status :: "queue_state \<Rightarrow> string \<Rightarrow> status_view option" where
  "get_task_status st tid =
     (case map_of (task_results st) tid of
        None \<Rightarrow> None
      | Some task_info \<Rightarrow>
          if status task_info = TASK_STATUS_PENDING
          then (case get_queue_position st tid of
                  Inl e \<Rightarrow> None
                | Inr p \<Rightarrow> Some \<lparr>task = task_info, queue_position = Some p\<rparr>)
          else Some \<lparr>task = task_info, queue_position = None\<rparr>)"

text \<open>The state after \<open>initialize_feedback_queue\<close>, before any task.\<close>

definition initial_queue_state :: queue_state where
  "initial_queue_state = \<lparr>feedback_queue = Some [], task_results = []\<rparr>"

text \<open>The tasks of \<open>task_results\<close> other than \<open>tid\<close> that are pending and were created before \<open>c\<close>.\<close>

definition earlier_pending :: "(string \<times> task_info) list \<Rightarrow> string \<Rightarrow> string \<Rightarrow> (string \<times> task_info) list" where
  "earlier_pending tr tid c =
     filter (\<lambda>(k, i). k \<noteq> tid \<and> status i = TASK_STATUS_PENDING \<and> created_at i < c) tr"

text \<open>
  Three calls of \<open>create_feedback_task\<close> one after the other on the fresh state, with
  task ids \<open>t1\<close>, \<open>t2\<close>, \<open>t3\<close> and creation times \<open>c1\<close>, \<open>c2\<close>, \<open>c3\<close>.
\<close>

definition enqueue3 ::
  "string \<Rightarrow> string \<Rightarrow> string \<Rightarrow> string \<Rightarrow> string \<Rightarrow> string \<Rightarrow> queue_state" where
  "enqueue3 t1 c1 t2 c2 t3 c3 =
     (let s1 = snd (create_feedback_task initial_queue_state t1 c1 ''ch'' ''title'' False ''f.json'');
          s2 = snd (create_feedback_task s1 t2 c2 ''ch'' ''title'' False ''f.json'')
      in snd (create_feedback_task s2 t3 c3 ''ch'' ''title'' False ''f.json''))"

text \<open>The entry \<open>create_feedback_task\<close> registers in these calls.\<close>

definition pending_entry :: "string \<Rightarrow> task_info" where
  "pending_entry c =
     \<lparr>status = TASK_STATUS_PENDING, created_at = c, challenge_id = ''ch'',
      challenge_title = ''title'', has_images = False,
      started_at = None, completed_at = None, result = None, error = None\<rparr>"

text \<open>A queue at capacity: \<open>maxsize\<close> waiting tasks, and their entries in \<open>task_results\<close>.\<close>

definition full_queue_state :: queue_state where
  "full_queue_state =
     \<lparr>feedback_queue =
        Some (map (\<lambda>n. \<lparr>task_id = str_nat n, source_file = ''f.json'',
                         task_created_at = ''2025-01-01T10:00:00''\<rparr>) [0..<100]),
      task_results = map (\<lambda>n. (str_nat n, pending_entry ''2025-01-01T10:00:00'')) [0..<100]\<rparr>"

section \<open>Example responses\<close>

text \<open>A response with one multiple choice, one true/false, two fill blank and one short answer question.\<close>

definition scenario_response_1 :: string where
  "scenario_response_1 =
     ''<multiple_choice><question><text>m1</text><options><option_a>x</option_a><option'' @
     ''_b>y</option_b></options><answer>a</answer></question></multiple_choice><true_fa'' @
     ''lse><question><text>t1</text><answer>true</answer></question></true_false><fill_'' @
     ''blank><question><text>f1</text><answer>a</answer></question><question><text>f2</'' @
     ''text><answer>b</answer></question></fill_blank><short_answer><question><text>s1<'' @
     ''/text><answer>a</answer></question></short_answer>''"

text \<open>A response with two true/false, three short answer and one free recall question.\<close>

definition scenario_response_2 :: string where
  "scenario_response_2 =
     ''<true_false><question><text>t2</text><answer>false</answer></question><question>'' @
     ''<text>t3</text><answer>true</answer></question></true_false><short_answer><quest'' @
     ''ion><text>s2</text><answer>a</answer></question><question><text>s3</text><answer'' @
     ''>b</answer></question><question><text>s4</text><answer>c</answer></question></sh'' @
     ''ort_answer><free_recall><question><text>r1</text><answer>a</answer></question></'' @
     ''free_recall>''"

text \<open>A response with three fill blank questions, one more than required.\<close>

definition three_fill_blank_response :: string where
  "three_fill_blank_response =
     ''<fill_blank><question><text>f1</text><answer>a</answer></question><question><tex'' @
     ''t>f2</text><answer>b</answer></question><question><text>f3</text><answer>c</answ'' @
     ''er></question></fill_blank>''"

text \<open>A response with three true/false, three fill blank, two short answer and one free recall question.\<close>

definition nine_questions_response :: string where
  "nine_questions_response =
     ''<true_false><question><text>t1</text><answer>true</answer></question><question><'' @
     ''text>t2</text><answer>false</answer></question><question><text>t3</text><answer>'' @
     ''true</answer></question></true_false><fill_blank><question><text>f1</text><answe'' @
     ''r>a</answer></question><question><text>f2</text><answer>b</answer></question><qu'' @
     ''estion><text>f3</text><answer>c</answer></question></fill_blank><short_answer><q'' @
     ''uestion><text>s1</text><answer>a</answer></question><question><text>s2</text><an'' @
     ''swer>b</answer></question></short_answer><free_recall><question><text>r1</text><'' @
     ''answer>a</answer></question></free_recall>''"

text \<open>A response with six challenges.\<close>

definition six_challenges_response :: string where
  "six_challenges_response =
     ''<challenges><challenge><title>t1</title><description>d</description><learning_go'' @
     ''als>g</learning_goals><deliverables>o</deliverables></challenge><challenge><titl'' @
     ''e>t2</title><description>d</description><learning_goals>g</learning_goals><deliv'' @
     ''erables>o</deliverables></challenge><challenge><title>t3</title><description>d</'' @
     ''description><learning_goals>g</learning_goals><deliverables>o</deliverables></ch'' @
     ''allenge><challenge><title>t4</title><description>d</description><learning_goals>'' @
     ''g</learning_goals><deliverables>o</deliverables></challenge><challenge><title>t5'' @
     ''</title><description>d</description><learning_goals>g</learning_goals><deliverab'' @
     ''les>o</deliverables></challenge><challenge><title>t6</title><description>d</desc'' @
     ''ription><learning_goals>g</learning_goals><deliverables>o</deliverables></challe'' @
     ''nge></challenges>''"

text \<open>The generator that gives the same response in every attempt, and the one of the scenario.\<close>

definition always_returns :: "string \<Rightarrow> nat \<Rightarrow> generation" where
  "always_returns response attempt = Returns response"

definition scenario_generate :: "nat \<Rightarrow> generation" where
  "scenario_generate attempt =
     (if attempt = 1 then Returns scenario_response_1 else Returns scenario_response_2)"

text \<open>
  Two batches as the parser returns them: one true/false question, and one multiple
  choice with one true/false question.
\<close>

definition one_true_false_batch :: questions_result where
  "one_true_false_batch =
     \<lparr>multiple_choice_qs = [],
      true_false_qs =
        [\<lparr>qid = ''1'', qtext = ''t0'', options = [], correct_answer = Bool True,
          sample_answer = None, qtype = true_false\<rparr>],
      fill_blank_qs = [], short_answer_qs = [], free_recall_qs = [], total_questions = 1\<rparr>"

definition choice_and_true_false_batch :: questions_result where
  "choice_and_true_false_batch =
     \<lparr>multiple_choice_qs =
        [\<lparr>qid = ''1'', qtext = ''m1'', options = [(''a'', ''x''), (''b'', ''y'')],
          correct_answer = Str ''a'', sample_answer = None, qtype = multiple_choice\<rparr>],
      true_false_qs =
        [\<lparr>qid = ''1'', qtext = ''t1'', options = [], correct_answer = Bool False,
          sample_answer = None, qtype = true_false\<rparr>],
      fill_blank_qs = [], short_answer_qs = [], free_recall_qs = [], total_questions = 2\<rparr>"

text \<open>What the loop does with a later batch when nothing is overgenerated.\<close>

abbreviation merged_questions :: "questions_result \<Rightarrow> questions_result \<Rightarrow> questions_result" where
  "merged_questions existing new \<equiv>
     merge_questions existing new (fst (check_question_requirements existing))"

abbreviation merged_challenges :: "challenges_result \<Rightarrow> challenges_result \<Rightarrow> challenges_result" where
  "merged_challenges existing new \<equiv>
     merge_challenges existing new (fst (check_challenge_requirements existing))"

text \<open>What the parser returns for the first response of the scenario.\<close>

definition scenario_batch_1 :: questions_result where
  "scenario_batch_1 =
     \<lparr>multiple_choice_qs =
        [\<lparr>qid = ''1'', qtext = ''m1'', options = [(''a'', ''x''), (''b'', ''y'')],
          correct_answer = Str ''a'', sample_answer = None, qtype = multiple_choice\<rparr>],
      true_false_qs =
        [\<lparr>qid = ''1'', qtext = ''t1'', options = [], correct_answer = Bool True,
          sample_answer = None, qtype = true_false\<rparr>],
      fill_blank_qs =
        [\<lparr>qid = ''1'', qtext = ''f1'', options = [], correct_answer = Str ''a'',
          sample_answer = None, qtype = fill_blank\<rparr>,
         \<lparr>qid = ''2'', qtext = ''f2'', options = [], correct_answer = Str ''b'',
          sample_answer = None, qtype = fill_blank\<rparr>],
      short_answer_qs =
        [\<lparr>qid = ''1'', qtext = ''s1'', options = [], correct_answer = Absent,
          sample_answer = Some ''a'', qtype = short_answer\<rparr>],
      free_recall_qs = [],
      total_questions = 5\<rparr>"

text \<open>The accumulator of the scenario after the second response is merged.\<close>

definition scenario_final :: questions_result where
  "scenario_final =
     \<lparr>multiple_choice_qs =
        [\<lparr>qid = ''1'', qtext = ''m1'', options = [(''a'', ''x''), (''b'', ''y'')],
          correct_answer = Str ''a'', sample_answer = None, qtype = multiple_choice\<rparr>],
      true_false_qs =
        [\<lparr>qid = ''1'', qtext = ''t1'', options = [], correct_answer = Bool True,
          sample_answer = None, qtype = true_false\<rparr>,
         \<lparr>qid = ''2'', qtext = ''t2'', options = [], correct_answer = Bool False,
          sample_answer = None, qtype = true_false\<rparr>],
      fill_blank_qs =
        [\<lparr>qid = ''1'', qtext = ''f1'', options = [], correct_answer = Str ''a'',
          sample_answer = None, qtype = fill_blank\<rparr>,
         \<lparr>qid = ''2'', qtext = ''f2'', options = [], correct_answer = Str ''b'',
          sample_answer = None, qtype = fill_blank\<rparr>],
      short_answer_qs =
        [\<lparr>qid = ''1'', qtext = ''s1'', options = [], correct_answer = Absent,
          sample_answer = Some ''a'', qtype = short_answer\<rparr>,
         \<lparr>qid = ''2'', qtext = ''s2'', options = [], correct_answer = Absent,
          sample_answer = Some ''a'', qtype = short_answer\<rparr>],
      free_recall_qs =
        [\<lparr>qid = ''1'', qtext = ''r1'', options = [], correct_answer = Absent,
          sample_answer = Some ''a'', qtype = free_recall\<rparr>],
      total_questions = 8\<rparr>"


text \<open>What the parser returns for the response with three fill blank questions.\<close>

definition three_fill_blank_batch :: questions_result where
  "three_fill_blank_batch =
     \<lparr>multiple_choice_qs = [],
      true_false_qs = [],
      fill_blank_qs =
        [\<lparr>qid = ''1'', qtext = ''f1'', options = [], correct_answer = Str ''a'',
          sample_answer = None, qtype = fill_blank\<rparr>,
         \<lparr>qid = ''2'', qtext = ''f2'', options = [], correct_answer = Str ''b'',
          sample_answer = None, qtype = fill_blank\<rparr>,
         \<lparr>qid = ''3'', qtext = ''f3'', options = [], correct_answer = Str ''c'',
          sample_answer = None, qtype = fill_blank\<rparr>],
      short_answer_qs = [],
      free_recall_qs = [],
      total_questions = 3\<rparr>"

text \<open>What the parser returns for the response with nine questions.\<close>

definition nine_questions_batch :: questions_result where
  "nine_questions_batch =
     \<lparr>multiple_choice_qs = [],
      true_false_qs =
        [\<lparr>qid = ''1'', qtext = ''t1'', options = [], correct_answer = Bool True,
          sample_answer = None, qtype = true_false\<rparr>,
         \<lparr>qid = ''2'', qtext = ''t2'', options = [], correct_answer = Bool False,
          sample_answer = None, qtype = true_false\<rparr>,
         \<lparr>qid = ''3'', qtext = ''t3'', options = [], correct_answer = Bool True,
          sample_answer = None, qtype = true_false\<rparr>],
      fill_blank_qs =
        [\<lparr>qid = ''1'', qtext = ''f1'', options = [], correct_answer = Str ''a'',
          sample_answer = None, qtype = fill_blank\<rparr>,
         \<lparr>qid = ''2'', qtext = ''f2'', options = [], correct_answer = Str ''b'',
          sample_answer = None, qtype = fill_blank\<rparr>,
         \<lparr>qid = ''3'', qtext = ''f3'', options = [], correct_answer = Str ''c'',
          sample_answer = None, qtype = fill_blank\<rparr>],
      short_answer_qs =
        [\<lparr>qid = ''1'', qtext = ''s1'', options = [], correct_answer = Absent,
          sample_answer = Some ''a'', qtype = short_answer\<rparr>,
         \<lparr>qid = ''2'', qtext = ''s2'', options = [], correct_answer = Absent,
          sample_answer = Some ''b'', qtype = short_answer\<rparr>],
      free_recall_qs =
        [\<lparr>qid = ''1'', qtext = ''r1'', options = [], correct_answer = Absent,
          sample_answer = Some ''a'', qtype = free_recall\<rparr>],
      total_questions = 9\<rparr>"

text \<open>What the parser returns for the response with six challenges.\<close>

definition six_challenges_batch :: challenges_result where
  "six_challenges_batch =
     \<lparr>challenges =
        [\<lparr>c_id = ''1'', c_title = ''t1'', c_description = ''d'',
          c_learning_goals = ''g'', c_deliverables = ''o''\<rparr>,
         \<lparr>c_id = ''2'', c_title = ''t2'', c_description = ''d'',
          c_learning_goals = ''g'', c_deliverables = ''o''\<rparr>,
         \<lparr>c_id = ''3'', c_title = ''t3'', c_description = ''d'',
          c_learning_goals = ''g'', c_deliverables = ''o''\<rparr>,
         \<lparr>c_id = ''4'', c_title = ''t4'', c_description = ''d'',
          c_learning_goals = ''g'', c_deliverables = ''o''\<rparr>,
         \<lparr>c_id = ''5'', c_title = ''t5'', c_description = ''d'',
          c_learning_goals = ''g'', c_deliverables = ''o''\<rparr>,
         \<lparr>c_id = ''6'', c_title = ''t6'', c_description = ''d'',
          c_learning_goals = ''g'', c_deliverables = ''o''\<rparr>],
      total_challenges = 6\<rparr>"

text \<open>
  A block of two multiple choice questions: the first answers \<open>b\<close>, the second \<open>e\<close>,
  a key that its options \<open>a\<close>..\<open>d\<close> do not have.
\<close>

definition two_choice_block :: string where
  "two_choice_block =
     ''<question><text>q1</text><options><option_a>x</option_a><option_b>y</option_b>'' @
     ''</options><answer>b</answer></question>'' @
     ''<question><text>q2</text><options><option_a>p</option_a><option_b>q</option_b>'' @
     ''<option_c>r</option_c><option_d>s</option_d></options><answer>e</answer></question>''"

definition choice_accepted :: question where
  "choice_accepted =
     \<lparr>qid = ''1'', qtext = ''q1'', options = [(''a'', ''x''), (''b'', ''y'')],
      correct_answer = Str ''b'', sample_answer = None, qtype = multiple_choice\<rparr>"

definition choice_rejected :: question where
  "choice_rejected =
     \<lparr>qid = ''2'', qtext = ''q2'',
      options = [(''a'', ''p''), (''b'', ''q''), (''c'', ''r''), (''d'', ''s'')],
      correct_answer = Str ''e'', sample_answer = None, qtype = multiple_choice\<rparr>"


text \<open>
  Responses for the boolean fields: an answer evaluation whose \<open>is_correct\<close> is the
  capitals \<open>S\<close> and I with acute accent (code point 205) between spaces, one whose
  \<open>is_correct\<close> is \<open>maybe\<close>, a true/false question answered \<open>maybe\<close>, and a
  challenge feedback whose \<open>ready_to_submit\<close> is \<open>maybe\<close>.
\<close>

definition evaluation_si_response :: string where
  "evaluation_si_response =
     ''<is_correct> S'' @ [char_of (205 :: nat)] @ '' </is_correct><feedback>bien</feedback>''"

definition evaluation_maybe_response :: string where
  "evaluation_maybe_response = ''<is_correct>maybe</is_correct><feedback>hm</feedback>''"

definition true_false_maybe_block :: string where
  "true_false_maybe_block = ''<question><text>q</text><answer>maybe</answer></question>''"

definition feedback_maybe_response :: string where
  "feedback_maybe_response =
     ''<challenge_feedback><delivered>x</delivered><strengths>s</strengths>'' @
     ''<areas_for_improvement>a</areas_for_improvement><suggestions>g</suggestions>'' @
     ''<overall_assessment>o</overall_assessment><ready_to_submit>maybe</ready_to_submit>'' @
     ''</challenge_feedback>''"




chapter \<open>Verification\<close>

section \<open>Searching a string\<close>



lemma find_str_here: "sub \<noteq> [] \<Longrightarrow> find_str (sub @ R) sub = Some 0"
  by (cases sub) simp_all




lemma find_str_bound:
  "find_str s sub = Some i \<Longrightarrow> i + length sub \<le> length s"
proof (induction s arbitrary: i)
  case Nil
  then show ?case by (simp split: if_splits)
next
  case (Cons c cs)
  show ?case
  proof (cases "prefix sub (c # cs)")
    case True
    then have "i = 0" using Cons.prems by simp
    then show ?thesis using prefix_length_le[OF True] by simp
  next
    case False
    then obtain k where k: "find_str cs sub = Some k" "i = Suc k"
      using Cons.prems by auto
    then show ?thesis using Cons.IH[OF k(1)] by simp
  qed
qed

lemma find_from_bound:
  "find_from s sub start = Some i \<Longrightarrow> start \<le> i \<and> i + length sub \<le> length s"
proof -
  assume a: "find_from s sub start = Some i"
  then have le: "start \<le> length s" by (simp add: find_from_def split: if_splits)
  from a obtain k where k: "find_str (drop start s) sub = Some k" "i = k + start"
    by (auto simp: find_from_def split: if_splits)
  have "k + length sub \<le> length (drop start s)" by (rule find_str_bound[OF k(1)])
  then show ?thesis using k(2) le by simp
qed

lemma search_block_end:
  assumes "search_block tag s = Some (e, block)"
  shows "0 < e \<and> e \<le> length s"
proof -
  from assms obtain i j where
    j: "find_from s (''</'' @ tag @ ''>'') (i + length (''<'' @ tag @ ''>'')) = Some j"
    and e: "e = j + length (''</'' @ tag @ ''>'')"
    by (auto simp: search_block_def Let_def split: option.splits)
  show ?thesis using find_from_bound[OF j] e by simp
qed

text \<open>
  The fuel of \<open>finditer_blocks\<close> is enough: with more fuel than the length of the
  string the matches found are the same.
\<close>

lemma finditer_fuel_enough:
  "length s \<le> n \<Longrightarrow> length s \<le> m \<Longrightarrow> finditer_fuel n tag s = finditer_fuel m tag s"
proof (induction n arbitrary: m s)
  case 0
  then have s: "s = []" by simp
  have "search_block tag [] = None" by (simp add: search_block_def)
  then show ?case unfolding s by (cases m) simp_all
next
  case (Suc n)
  show ?case
  proof (cases "search_block tag s")
    case None
    then show ?thesis by (cases m) simp_all
  next
    case (Some r)
    obtain e block where r: "r = (e, block)" by (cases r)
    have b: "0 < e \<and> e \<le> length s" using search_block_end Some r by blast
    then obtain m' where m: "m = Suc m'" using Suc.prems(2) by (cases m) auto
    have "length (drop e s) \<le> n" "length (drop e s) \<le> m'"
      using b Suc.prems m by auto
    then have "finditer_fuel n tag (drop e s) = finditer_fuel m' tag (drop e s)"
      by (rule Suc.IH)
    then show ?thesis using Some r m by simp
  qed
qed

lemma finditer_blocks_unfold:
  "finditer_blocks tag s =
     (case search_block tag s of
        None \<Rightarrow> []
      | Some (e, block) \<Rightarrow> block # finditer_blocks tag (drop e s))"
proof (cases "search_block tag s")
  case None
  then show ?thesis by (cases "length s") (simp_all add: finditer_blocks_def)
next
  case (Some r)
  obtain e block where r: "r = (e, block)" by (cases r)
  have b: "0 < e \<and> e \<le> length s" using search_block_end Some r by blast
  then obtain n where n: "length s = Suc n" by (cases "length s") auto
  have "finditer_fuel n tag (drop e s) = finditer_fuel (length (drop e s)) tag (drop e s)"
    using b n by (intro finditer_fuel_enough) auto
  then show ?thesis using Some r n by (simp add: finditer_blocks_def)
qed

text \<open>\<open>str_nat\<close> writes the decimal digits of a number: reading them gives the number back.\<close>

lemma digits_foldl:
  "foldl (\<lambda>n c. 10 * n + ((of_char c :: nat) - 48)) a ds
   = a * 10 ^ length ds + foldl (\<lambda>n c. 10 * n + ((of_char c :: nat) - 48)) 0 ds"
proof (induction ds arbitrary: a)
  case Nil
  show ?case by simp
next
  case (Cons d ds)
  let ?f = "\<lambda>n c. 10 * n + ((of_char c :: nat) - 48)"
  have "foldl ?f a (d # ds) = foldl ?f (10 * a + (of_char d - 48)) ds" by simp
  also have "\<dots> = (10 * a + (of_char d - 48)) * 10 ^ length ds + foldl ?f 0 ds"
    by (rule Cons.IH)
  also have "\<dots> = a * 10 ^ length (d # ds) + ((of_char d - 48) * 10 ^ length ds + foldl ?f 0 ds)"
    by (simp add: algebra_simps)
  also have "(of_char d - 48) * 10 ^ length ds + foldl ?f 0 ds = foldl ?f (of_char d - 48) ds"
    by (rule Cons.IH[symmetric])
  also have "foldl ?f (of_char d - 48) ds = foldl ?f 0 (d # ds)" by simp
  finally show ?case .
qed

lemma int_of_digits_Cons:
  "int_of_digits (c # ds) = ((of_char c :: nat) - 48) * 10 ^ length ds + int_of_digits ds"
  using digits_foldl[of "of_char c - 48" ds] by (simp add: int_of_digits_def)

lemma digit_char_value: "n < 10 \<Longrightarrow> (of_char (digit_char n) :: nat) - 48 = n"
  by (simp add: digit_char_def)

lemma str_nat_aux_value:
  "n < fuel \<Longrightarrow>
   int_of_digits (str_nat_aux fuel n acc) = n * 10 ^ length acc + int_of_digits acc"
proof (induction fuel arbitrary: n acc)
  case 0
  then show ?case by simp
next
  case (Suc fuel)
  show ?case
  proof (cases "n < 10")
    case True
    then show ?thesis by (simp add: int_of_digits_Cons digit_char_value)
  next
    case False
    then have "n div 10 < fuel" using Suc.prems by simp
    then have "int_of_digits (str_nat_aux fuel (n div 10) (digit_char (n mod 10) # acc))
               = (n div 10) * 10 ^ length (digit_char (n mod 10) # acc)
                 + int_of_digits (digit_char (n mod 10) # acc)"
      by (rule Suc.IH)
    also have "\<dots> = (n div 10) * 10 * 10 ^ length acc + (n mod 10) * 10 ^ length acc
                     + int_of_digits acc"
      by (simp add: int_of_digits_Cons digit_char_value)
    also have "\<dots> = ((n div 10) * 10 + n mod 10) * 10 ^ length acc + int_of_digits acc"
      by (simp only: distrib_right)
    also have "(n div 10) * 10 + n mod 10 = n" by simp
    finally show ?thesis using False by simp
  qed
qed

lemma int_of_digits_str_nat: "int_of_digits (str_nat n) = n"
  using str_nat_aux_value[of n "Suc n" "[]"] by (simp add: str_nat_def int_of_digits_def)

section \<open>The extractor\<close>








section \<open>The extractor and the typo table\<close>


lemma typo_table_keys: "distinct (map fst COMMON_TAG_TYPOS)"
  by code_simp











section \<open>Merging a batch into the accumulator\<close>

lemma get_set_questions:
  "get_questions (set_questions r qt qs) qt' = (if qt' = qt then qs else get_questions r qt')"
  by (cases qt; cases qt'; simp)

lemma renumbered_0 [simp]: "renumbered xs n 0 = []"
  by (simp add: renumbered_def)

lemma length_renumbered [simp]: "length (renumbered xs n k) = k"
  by (simp add: renumbered_def)

lemma merge_types_other:
  "qt' \<notin> set qts \<Longrightarrow> get_questions (merge_types new qts rem e) qt' = get_questions e qt'"
  by (induction qts arbitrary: rem e) (auto simp: Let_def get_set_questions)

lemma merge_types_single:
  assumes "0 < rem"
  shows "get_questions (merge_types new [qt] rem e) qt
         = get_questions e qt
           @ renumbered (get_questions new qt) (length (get_questions e qt) + 1)
               (nat (min rem (int (length (get_questions new qt)))))"
  using assms by (simp add: Let_def get_set_questions)

lemma merge_types_pair:
  assumes "0 < rem" "a \<noteq> b"
  shows "get_questions (merge_types new [a, b] rem e) a
         = get_questions e a
           @ renumbered (get_questions new a) (length (get_questions e a) + 1)
               (nat (min rem (int (length (get_questions new a)))))"
    and "get_questions (merge_types new [a, b] rem e) b
         = get_questions e b
           @ renumbered (get_questions new b) (length (get_questions e b) + 1)
               (nat (min (rem - int (nat (min rem (int (length (get_questions new a))))))
                      (int (length (get_questions new b)))))"
  using assms by (auto simp: Let_def get_set_questions min_def)

lemma requirements_map_iff: "qt \<in> set (requirements_map t) \<longleftrightarrow> requirement_of qt = t"
  by (cases t; cases qt; simp)

lemma limits_are_requirements: "absolute_limits t = requirements t"
  by (cases t) simp_all

lemma current_count_sum:
  "(\<Sum>qtype \<leftarrow> requirements_map t. int (length (get_questions r qtype))) = current_counts r t"
  by (cases t) simp_all

lemma current_counts_agree:
  assumes "\<And>qt. requirement_of qt = t \<Longrightarrow> get_questions e' qt = get_questions e qt"
  shows "current_counts e' t = current_counts e t"
proof (cases t)
  case R_multiple_choice_true_false
  then show ?thesis
    using assms[of multiple_choice] assms[of true_false] by simp
next
  case R_fill_blank
  then show ?thesis using assms[of fill_blank] by simp
next
  case R_short_answer
  then show ?thesis using assms[of short_answer] by simp
next
  case R_free_recall
  then show ?thesis using assms[of free_recall] by simp
qed

lemma merge_types_planned:
  assumes lt: "current_counts e t < requirements t"
      and qt: "requirement_of qt = t"
      and agree: "\<And>qt'. requirement_of qt' = t \<Longrightarrow> get_questions e' qt' = get_questions e qt'"
  shows "get_questions
           (merge_types new (requirements_map t) (requirements t - current_counts e t) e') qt
         = get_questions e qt
           @ renumbered (get_questions new qt) (length (get_questions e qt) + 1)
               (planned e new qt)"
proof -
  let ?n = "requirements t - current_counts e t"
  have pos: "0 < ?n" using lt by simp
  have d: "deficit e t = ?n" using lt by (simp add: deficit_def)
  show ?thesis
  proof (cases qt)
    case multiple_choice
    then have t: "t = R_multiple_choice_true_false" using qt by simp
    show ?thesis
      using merge_types_pair(1)[OF pos, of multiple_choice true_false new e']
        agree[of multiple_choice] d
      by (simp add: multiple_choice t)
  next
    case true_false
    then have t: "t = R_multiple_choice_true_false" using qt by simp
    have m: "0 \<le> min ?n (int (length (multiple_choice_qs new)))" using pos by simp
    show ?thesis
      using merge_types_pair(2)[OF pos, of multiple_choice true_false new e']
        agree[of true_false] d m
      by (simp add: true_false t)
  next
    case fill_blank
    then have t: "t = R_fill_blank" using qt by simp
    show ?thesis
      using merge_types_single[OF pos, of new fill_blank e'] agree[of fill_blank] d
      by (simp add: fill_blank t)
  next
    case short_answer
    then have t: "t = R_short_answer" using qt by simp
    show ?thesis
      using merge_types_single[OF pos, of new short_answer e'] agree[of short_answer] d
      by (simp add: short_answer t)
  next
    case free_recall
    then have t: "t = R_free_recall" using qt by simp
    show ?thesis
      using merge_types_single[OF pos, of new free_recall e'] agree[of free_recall] d
      by (simp add: free_recall t)
  qed
qed

lemma planned_zero:
  assumes "\<not> current_counts e (requirement_of qt) < requirements (requirement_of qt)"
  shows "planned e new qt = 0"
proof -
  have "requirements (requirement_of qt) - current_counts e (requirement_of qt) \<le> 0"
    using assms by linarith
  then have z: "deficit e (requirement_of qt) = 0"
    unfolding deficit_def by (rule max_absorb1)
  show ?thesis using z by (cases qt) (simp_all del: current_counts.simps requirements.simps)
qed

lemma merge_requirements_get:
  assumes "distinct ts"
      and "\<And>qt'. requirement_of qt' \<in> set ts \<Longrightarrow> get_questions e' qt' = get_questions e qt'"
  shows "get_questions
           (merge_requirements new
              (map (\<lambda>t. (t, requirements t - current_counts e t))
                 (filter (\<lambda>t. current_counts e t < requirements t) ts)) e') qt
         = (if requirement_of qt \<in> set ts
            then get_questions e qt
                 @ renumbered (get_questions new qt) (length (get_questions e qt) + 1)
                     (planned e new qt)
            else get_questions e' qt)"
  using assms
proof (induction ts arbitrary: e')
  case Nil
  show ?case by simp
next
  case (Cons t ts)
  have dist: "distinct ts" and notin: "t \<notin> set ts" using Cons.prems(1) by auto
  have agree_t: "\<And>qt'. requirement_of qt' = t \<Longrightarrow> get_questions e' qt' = get_questions e qt'"
    using Cons.prems(2) by simp
  have agree_ts: "\<And>qt'. requirement_of qt' \<in> set ts \<Longrightarrow> get_questions e' qt' = get_questions e qt'"
    using Cons.prems(2) by simp
  show ?case
  proof (cases "current_counts e t < requirements t")
    case False
    have "get_questions
           (merge_requirements new
              (map (\<lambda>t. (t, requirements t - current_counts e t))
                 (filter (\<lambda>t. current_counts e t < requirements t) ts)) e') qt
         = (if requirement_of qt \<in> set ts
            then get_questions e qt
                 @ renumbered (get_questions new qt) (length (get_questions e qt) + 1)
                     (planned e new qt)
            else get_questions e' qt)"
      by (rule Cons.IH[OF dist agree_ts])
    moreover have "requirement_of qt = t \<Longrightarrow> planned e new qt = 0"
      using False planned_zero by blast
    ultimately show ?thesis
      using False agree_t notin by auto
  next
    case True
    let ?n = "requirements t - current_counts e t"
    let ?e'' = "merge_types new (requirements_map t) ?n e'"
    have cur: "current_counts e' t = current_counts e t"
      by (rule current_counts_agree) (rule agree_t)
    have step: "merge_requirements new ((t, ?n) # rest) e' = merge_requirements new rest ?e''"
      for rest
      using True cur by (simp add: Let_def current_count_sum limits_are_requirements)
    have agree'': "get_questions ?e'' qt' = get_questions e qt'"
      if "requirement_of qt' \<in> set ts" for qt'
    proof -
      have "requirement_of qt' \<noteq> t" using that notin by auto
      then have "qt' \<notin> set (requirements_map t)" by (simp add: requirements_map_iff)
      then show ?thesis using merge_types_other agree_ts that by simp
    qed
    have ih: "get_questions
           (merge_requirements new
              (map (\<lambda>t. (t, requirements t - current_counts e t))
                 (filter (\<lambda>t. current_counts e t < requirements t) ts)) ?e'') qt
         = (if requirement_of qt \<in> set ts
            then get_questions e qt
                 @ renumbered (get_questions new qt) (length (get_questions e qt) + 1)
                     (planned e new qt)
            else get_questions ?e'' qt)"
      by (rule Cons.IH[OF dist agree''])
    show ?thesis
    proof (cases "requirement_of qt = t")
      case qt: True
      then have "requirement_of qt \<notin> set ts" using notin by simp
      then show ?thesis
        using ih qt True step merge_types_planned[OF True qt agree_t, of new] by simp
    next
      case qt: False
      then have "qt \<notin> set (requirements_map t)" by (simp add: requirements_map_iff)
      then have "get_questions ?e'' qt = get_questions e' qt" by (rule merge_types_other)
      then show ?thesis using ih qt True step by simp
    qed
  qed
qed

lemma merge_questions_get:
  "get_questions (merge_questions e new (fst (check_question_requirements e))) qt
   = get_questions e qt
     @ renumbered (get_questions new qt) (length (get_questions e qt) + 1) (planned e new qt)"
proof -
  have d: "distinct requirement_types" by (simp add: requirement_types_def)
  have m: "requirement_of qt \<in> set requirement_types"
    by (cases qt) (simp_all add: requirement_types_def)
  have g: "get_questions (r\<lparr>total_questions := n\<rparr>) qt = get_questions r qt" for r n
    by (cases qt) simp_all
  show ?thesis
    using merge_requirements_get[OF d, of e e new qt] m
    by (simp add: merge_questions_def check_question_requirements_def Let_def g)
qed

lemma deficit_nonneg: "0 \<le> deficit e t"
  by (simp add: deficit_def)

lemma planned_sum:
  "(\<Sum>qt \<leftarrow> requirements_map t. int (planned e new qt)) = min (deficit e t) (current_counts new t)"
  using deficit_nonneg[of e t] by (cases t) (simp_all add: min_def)

lemma planned_le: "planned e new qt \<le> length (get_questions new qt)"
  by (cases qt) (simp_all add: nat_le_iff)

lemma current_counts_merge:
  "current_counts (merge_questions e new (fst (check_question_requirements e))) t
   = current_counts e t + min (deficit e t) (current_counts new t)"
proof -
  let ?m = "merge_questions e new (fst (check_question_requirements e))"
  have len: "int (length (get_questions ?m qt))
             = int (length (get_questions e qt)) + int (planned e new qt)" for qt
    by (simp add: merge_questions_get)
  have "current_counts ?m t = (\<Sum>qt \<leftarrow> requirements_map t. int (length (get_questions ?m qt)))"
    by (simp add: current_count_sum)
  also have "\<dots> = (\<Sum>qt \<leftarrow> requirements_map t. int (length (get_questions e qt)))
                  + (\<Sum>qt \<leftarrow> requirements_map t. int (planned e new qt))"
    by (simp add: len sum_list_addf)
  finally show ?thesis by (simp add: current_count_sum planned_sum)
qed

lemma count_all_total [simp]: "count_all (r\<lparr>total_questions := n\<rparr>) = count_all r"
  by (simp add: count_all_def)

lemma merge_questions_total:
  "total_questions (merge_questions e new m) = count_all (merge_questions e new m)"
  by (simp add: merge_questions_def Let_def)

lemma parse_questions_total:
  assumes "parse_questions s = Some r"
  shows "total_questions r = count_all r \<and> 0 < count_all r"
  using assms by (auto simp: parse_questions_def Let_def count_all_def split: if_splits)

lemma count_all_sum:
  "int (count_all r) = (\<Sum>t \<leftarrow> requirement_types. current_counts r t)"
  by (simp add: count_all_def requirement_types_def)

lemma merge_bound:
  "current_counts e t \<le> current_counts (merge_questions e new (fst (check_question_requirements e))) t
   \<and> current_counts (merge_questions e new (fst (check_question_requirements e))) t
       \<le> max (requirements t) (current_counts e t)"
proof -
  have "0 \<le> current_counts new t" by (cases t) simp_all
  then show ?thesis
    unfolding current_counts_merge deficit_def by (simp add: min_def max_def)
qed

section \<open>The generation sessions\<close>

lemma question_attempt_Some:
  assumes "total_questions acc = count_all acc"
  shows "\<exists>final. result_of (question_attempt out (Some acc)) = Some final
           \<and> total_questions final = count_all final
           \<and> (\<forall>t. current_counts acc t \<le> current_counts final t
                  \<and> current_counts final t \<le> max (requirements t) (current_counts acc t))"
proof -
  let ?m = "\<lambda>r. merge_questions acc r (fst (check_question_requirements acc))"
  have cases: "result_of (question_attempt out (Some acc)) = Some acc
               \<or> (\<exists>r. result_of (question_attempt out (Some acc)) = Some (?m r))"
    by (auto simp: question_attempt_def Let_def split: generation.splits option.splits prod.splits)
  then show ?thesis
  proof
    assume "result_of (question_attempt out (Some acc)) = Some acc"
    then show ?thesis using assms by auto
  next
    assume "\<exists>r. result_of (question_attempt out (Some acc)) = Some (?m r)"
    then obtain r where "result_of (question_attempt out (Some acc)) = Some (?m r)" ..
    then show ?thesis using merge_bound[of acc _ r] merge_questions_total by blast
  qed
qed

lemma question_attempt_None:
  "result_of (question_attempt out None)
   = (case out of Raises \<Rightarrow> None | Returns response \<Rightarrow> parse_questions response)"
  by (auto simp: question_attempt_def Let_def split: generation.splits option.splits prod.splits)

lemma question_attempt_None_stops:
  "question_attempt out None = Continue None
   \<longleftrightarrow> (\<exists>response. out = Returns response \<and> parse_questions response = None)"
  by (auto simp: question_attempt_def Let_def split: generation.splits option.splits prod.splits)

lemma question_attempts_Some:
  assumes "question_attempts g n (Some acc) = (how, fin)"
      and "total_questions acc = count_all acc"
  shows "\<exists>final. fin = Some final \<and> total_questions final = count_all final
           \<and> (\<forall>t. current_counts acc t \<le> current_counts final t
                  \<and> current_counts final t \<le> max (requirements t) (current_counts acc t))"
  using assms
proof (induction g n "Some acc" arbitrary: acc rule: question_attempts.induct)
  case (1 generate generation_attempt)
  show ?case
  proof (cases "generation_attempt \<le> max_attempts")
    case False
    then show ?thesis using "1.prems" by auto
  next
    case True
    obtain final where f: "result_of (question_attempt (generate generation_attempt) (Some acc)) = Some final"
      "total_questions final = count_all final"
      "\<forall>t. current_counts acc t \<le> current_counts final t
                  \<and> current_counts final t \<le> max (requirements t) (current_counts acc t)"
      using question_attempt_Some[OF "1.prems"(2)] by blast
    show ?thesis
    proof (cases "question_attempt (generate generation_attempt) (Some acc)")
      case (Stop h r)
      then have "fin = Some final" using "1.prems"(1) True f(1) by simp
      then show ?thesis using f by blast
    next
      case (Continue r)
      then have r: "r = Some final" using f(1) by simp
      have "question_attempts generate (generation_attempt + 1) (Some final) = (how, fin)"
        using "1.prems"(1) True Continue r by simp
      from "1.hyps"[OF _ Continue[unfolded r] this f(2)] True
      obtain final' where f': "fin = Some final'" "total_questions final' = count_all final'"
        "\<forall>t. current_counts final t \<le> current_counts final' t
                  \<and> current_counts final' t \<le> max (requirements t) (current_counts final t)"
        by auto
      have "\<forall>t. current_counts acc t \<le> current_counts final' t
                  \<and> current_counts final' t \<le> max (requirements t) (current_counts acc t)"
      proof
        fix t
        show "current_counts acc t \<le> current_counts final' t
                  \<and> current_counts final' t \<le> max (requirements t) (current_counts acc t)"
          using f(3)[rule_format, of t] f'(3)[rule_format, of t] by linarith
      qed
      then show ?thesis using f' by blast
    qed
  qed
qed

lemma question_attempts_None:
  assumes "question_attempts g n None = (how, Some final)"
  shows "\<exists>r. first_batch g [n..<Suc max_attempts] = Some r
           \<and> total_questions final = count_all final
           \<and> (\<forall>t. current_counts r t \<le> current_counts final t
                  \<and> current_counts final t \<le> max (requirements t) (current_counts r t))"
  using assms
proof (induction g n "None :: questions_result option" rule: question_attempts.induct)
  case (1 generate generation_attempt)
  show ?case
  proof (cases "generation_attempt \<le> max_attempts")
    case False
    then show ?thesis using "1.prems" by simp
  next
    case True
    then have upt: "[generation_attempt..<Suc max_attempts]
                    = generation_attempt # [generation_attempt + 1..<Suc max_attempts]"
      by (simp add: upt_rec)
    show ?thesis
    proof (cases "generate generation_attempt")
      case Raises
      then show ?thesis using "1.prems" True by (simp add: question_attempt_def)
    next
      case (Returns response)
      show ?thesis
      proof (cases "parse_questions response")
        case None
        then have c: "question_attempt (generate generation_attempt) None = Continue None"
          using Returns by (simp add: question_attempt_def)
        then have "question_attempts generate (generation_attempt + 1) None = (how, Some final)"
          using "1.prems" True by simp
        from "1.hyps"[OF _ c this] True show ?thesis
          using upt Returns None by simp
      next
        case (Some r)
        have fb: "first_batch generate [generation_attempt..<Suc max_attempts] = Some r"
          using upt Returns Some by simp
        have cons: "total_questions r = count_all r"
          using parse_questions_total[OF Some] by simp
        have res: "result_of (question_attempt (generate generation_attempt) None) = Some r"
          using Returns Some by (simp add: question_attempt_None)
        show ?thesis
        proof (cases "question_attempt (generate generation_attempt) None")
          case (Stop h x)
          then have "final = r" using "1.prems" True res by simp
          then show ?thesis using fb cons by simp
        next
          case (Continue x)
          then have "x = Some r" using res by simp
          then have "question_attempts generate (generation_attempt + 1) (Some r) = (how, Some final)"
            using "1.prems" True Continue by simp
          from question_attempts_Some[OF this cons] show ?thesis using fb by auto
        qed
      qed
    qed
  qed
qed

lemma parse_challenges_total:
  assumes "parse_challenges s = Some r"
  shows "total_challenges r = length (challenges r) \<and> 0 < length (challenges r)"
  using assms by (auto simp: parse_challenges_def Let_def split: if_splits)

lemma merge_challenges_appends:
  "challenges (merge_challenges e new (fst (check_challenge_requirements e)))
   = challenges e
     @ renumbered_challenges (challenges new) (length (challenges e) + 1)
         (nat (min (max 0 (required_challenges - int (length (challenges e))))
                 (int (length (challenges new)))))"
  by (simp add: merge_challenges_def check_challenge_requirements_def Let_def
      renumbered_challenges_def)

lemma merge_challenges_bound:
  assumes "total_challenges e = length (challenges e)"
  shows "total_challenges (merge_challenges e new (fst (check_challenge_requirements e)))
           = length (challenges (merge_challenges e new (fst (check_challenge_requirements e))))
         \<and> length (challenges e)
             \<le> length (challenges (merge_challenges e new (fst (check_challenge_requirements e))))
         \<and> int (length (challenges (merge_challenges e new (fst (check_challenge_requirements e)))))
             \<le> max required_challenges (int (length (challenges e)))"
  using assms
  by (auto simp: merge_challenges_def check_challenge_requirements_def Let_def
      renumbered_challenges_def min_def max_def)

lemma challenge_attempt_Some:
  assumes "total_challenges acc = length (challenges acc)"
  shows "\<exists>final. result_of (challenge_attempt out (Some acc)) = Some final
           \<and> total_challenges final = length (challenges final)
           \<and> length (challenges acc) \<le> length (challenges final)
           \<and> int (length (challenges final))
                \<le> max required_challenges (int (length (challenges acc)))"
proof -
  let ?m = "\<lambda>r. merge_challenges acc r (fst (check_challenge_requirements acc))"
  have cases: "result_of (challenge_attempt out (Some acc)) = Some acc
               \<or> (\<exists>r. result_of (challenge_attempt out (Some acc)) = Some (?m r))"
    by (auto simp: challenge_attempt_def Let_def split: generation.splits option.splits)
  then show ?thesis
  proof
    assume "result_of (challenge_attempt out (Some acc)) = Some acc"
    then show ?thesis using assms by auto
  next
    assume "\<exists>r. result_of (challenge_attempt out (Some acc)) = Some (?m r)"
    then obtain r where "result_of (challenge_attempt out (Some acc)) = Some (?m r)" ..
    then show ?thesis using merge_challenges_bound[OF assms, of r] by blast
  qed
qed

lemma challenge_attempts_Some:
  assumes "challenge_attempts g n (Some acc) = (how, fin)"
      and "total_challenges acc = length (challenges acc)"
  shows "\<exists>final. fin = Some final \<and> total_challenges final = length (challenges final)
           \<and> length (challenges acc) \<le> length (challenges final)
           \<and> int (length (challenges final))
                \<le> max required_challenges (int (length (challenges acc)))"
  using assms
proof (induction g n "Some acc" arbitrary: acc rule: challenge_attempts.induct)
  case (1 generate generation_attempt)
  show ?case
  proof (cases "generation_attempt \<le> max_attempts")
    case False
    then show ?thesis using "1.prems" by auto
  next
    case True
    obtain final where f:
      "result_of (challenge_attempt (generate generation_attempt) (Some acc)) = Some final"
      "total_challenges final = length (challenges final)"
      "length (challenges acc) \<le> length (challenges final)"
      "int (length (challenges final)) \<le> max required_challenges (int (length (challenges acc)))"
      using challenge_attempt_Some[OF "1.prems"(2)] by blast
    show ?thesis
    proof (cases "challenge_attempt (generate generation_attempt) (Some acc)")
      case (Stop h r)
      then have "fin = Some final" using "1.prems"(1) True f(1) by simp
      then show ?thesis using f by blast
    next
      case (Continue r)
      then have r: "r = Some final" using f(1) by simp
      have "challenge_attempts generate (generation_attempt + 1) (Some final) = (how, fin)"
        using "1.prems"(1) True Continue r by simp
      from "1.hyps"[OF _ Continue[unfolded r] this f(2)] True
      obtain final' where f': "fin = Some final'"
        "total_challenges final' = length (challenges final')"
        "length (challenges final) \<le> length (challenges final')"
        "int (length (challenges final')) \<le> max required_challenges (int (length (challenges final)))"
        by auto
      have "length (challenges acc) \<le> length (challenges final')
            \<and> int (length (challenges final')) \<le> max required_challenges (int (length (challenges acc)))"
        using f(3,4) f'(3,4) by linarith
      then show ?thesis using f' by blast
    qed
  qed
qed

lemma challenge_attempts_None:
  assumes "challenge_attempts g n None = (how, Some final)"
  shows "\<exists>r. first_challenge_batch g [n..<Suc max_attempts] = Some r
           \<and> total_challenges final = length (challenges final)
           \<and> length (challenges r) \<le> length (challenges final)
           \<and> int (length (challenges final))
                \<le> max required_challenges (int (length (challenges r)))"
  using assms
proof (induction g n "None :: challenges_result option" rule: challenge_attempts.induct)
  case (1 generate generation_attempt)
  show ?case
  proof (cases "generation_attempt \<le> max_attempts")
    case False
    then show ?thesis using "1.prems" by simp
  next
    case True
    then have upt: "[generation_attempt..<Suc max_attempts]
                    = generation_attempt # [generation_attempt + 1..<Suc max_attempts]"
      by (simp add: upt_rec)
    show ?thesis
    proof (cases "generate generation_attempt")
      case Raises
      then show ?thesis using "1.prems" True by (simp add: challenge_attempt_def)
    next
      case (Returns response)
      show ?thesis
      proof (cases "parse_challenges response")
        case None
        then have c: "challenge_attempt (generate generation_attempt) None = Continue None"
          using Returns by (simp add: challenge_attempt_def)
        then have "challenge_attempts generate (generation_attempt + 1) None = (how, Some final)"
          using "1.prems" True by simp
        from "1.hyps"[OF _ c this] True show ?thesis
          using upt Returns None by simp
      next
        case (Some r)
        have fb: "first_challenge_batch generate [generation_attempt..<Suc max_attempts] = Some r"
          using upt Returns Some by simp
        have cons: "total_challenges r = length (challenges r)"
          using parse_challenges_total[OF Some] by simp
        have res: "result_of (challenge_attempt (generate generation_attempt) None) = Some r"
          using Returns Some by (simp add: challenge_attempt_def Let_def)
        show ?thesis
        proof (cases "challenge_attempt (generate generation_attempt) None")
          case (Stop h x)
          then have "final = r" using "1.prems" True res by simp
          then show ?thesis using fb cons by simp
        next
          case (Continue x)
          then have "x = Some r" using res by simp
          then have "challenge_attempts generate (generation_attempt + 1) (Some r) = (how, Some final)"
            using "1.prems" True Continue by simp
          from challenge_attempts_Some[OF this cons] show ?thesis using fb by auto
        qed
      qed
    qed
  qed
qed

lemma all_requirement_types:
  "(\<forall>t. P t) \<longleftrightarrow> P R_multiple_choice_true_false \<and> P R_fill_blank \<and> P R_short_answer \<and> P R_free_recall"
  by (metis requirement_type.exhaust)

lemma missing_empty_iff:
  "fst (check_question_requirements r) = [] \<longleftrightarrow> (\<forall>t. requirements t \<le> current_counts r t)"
  unfolding all_requirement_types
  by (simp add: check_question_requirements_def Let_def requirement_types_def
      del: current_counts.simps)

lemma overgenerated_empty_iff:
  "snd (snd (check_question_requirements r)) = [] \<longleftrightarrow> (\<forall>t. current_counts r t \<le> requirements t)"
  unfolding all_requirement_types
  by (simp add: check_question_requirements_def Let_def requirement_types_def
      del: current_counts.simps)

lemma attempts_list: "[1..<Suc max_attempts] = [1, 2, 3]"
  by (simp add: max_attempts_def upt_rec)

lemma success_total_questions:
  assumes tot: "total_questions final = count_all final"
      and miss: "fst (check_question_requirements final) = []"
  shows "8 \<le> total_questions final"
    and "total_questions final = 8 \<longleftrightarrow> snd (snd (check_question_requirements final)) = []"
proof -
  have ge: "\<forall>t. requirements t \<le> current_counts final t"
    using miss by (simp add: missing_empty_iff)
  have s: "int (total_questions final)
           = current_counts final R_multiple_choice_true_false + current_counts final R_fill_blank
             + current_counts final R_short_answer + current_counts final R_free_recall"
    using tot by (simp add: count_all_def)
  have g: "3 \<le> current_counts final R_multiple_choice_true_false"
    "2 \<le> current_counts final R_fill_blank" "2 \<le> current_counts final R_short_answer"
    "1 \<le> current_counts final R_free_recall"
    using ge[rule_format, of R_multiple_choice_true_false] ge[rule_format, of R_fill_blank]
      ge[rule_format, of R_short_answer] ge[rule_format, of R_free_recall] by simp_all
  show "8 \<le> total_questions final" using s g by linarith
  have "snd (snd (check_question_requirements final)) = []
        \<longleftrightarrow> current_counts final R_multiple_choice_true_false \<le> 3
            \<and> current_counts final R_fill_blank \<le> 2 \<and> current_counts final R_short_answer \<le> 2
            \<and> current_counts final R_free_recall \<le> 1"
    unfolding overgenerated_empty_iff all_requirement_types by simp
  then show "total_questions final = 8 \<longleftrightarrow> snd (snd (check_question_requirements final)) = []"
    using s g by linarith
qed

text \<open>
  C3 (amended). A session that ends with every deficit zero holds at least as many
  items as the quota asks for: at least 8 questions, and exactly 8 if and only if no
  requirement is overgenerated, which is the case whenever the first batch of the
  session exceeded no requirement; at least 5 challenges, and exactly 5 whenever the
  first batch had at most 5. In both, the stored total is the number of items held.
\<close>

theorem success_total:
  "(question_session g = (how, Some final) \<and> fst (check_question_requirements final) = [] \<longrightarrow>
      8 \<le> total_questions final \<and> total_questions final = count_all final
      \<and> (total_questions final = 8 \<longleftrightarrow> snd (snd (check_question_requirements final)) = [])
      \<and> (\<forall>r. first_batch g [1, 2, 3] = Some r \<and> (\<forall>t. current_counts r t \<le> requirements t)
             \<longrightarrow> total_questions final = 8))
   \<and> (challenge_session g' = (how', Some cfinal)
        \<and> fst (check_challenge_requirements cfinal) = 0 \<longrightarrow>
      5 \<le> total_challenges cfinal \<and> total_challenges cfinal = length (challenges cfinal)
      \<and> (\<forall>r. first_challenge_batch g' [1, 2, 3] = Some r \<and> length (challenges r) \<le> 5
             \<longrightarrow> total_challenges cfinal = 5))"
proof (rule conjI; rule impI)
  assume a: "question_session g = (how, Some final) \<and> fst (check_question_requirements final) = []"
  then have run: "question_attempts g 1 None = (how, Some final)"
    by (simp add: question_session_def)
  from question_attempts_None[OF run] obtain r0 where r0:
    "first_batch g [1, 2, 3] = Some r0" "total_questions final = count_all final"
    "\<forall>t. current_counts r0 t \<le> current_counts final t
         \<and> current_counts final t \<le> max (requirements t) (current_counts r0 t)"
    unfolding attempts_list by blast
  have miss: "fst (check_question_requirements final) = []" using a by simp
  note st = success_total_questions[OF r0(2) miss]
  have quota: "total_questions final = 8"
    if "first_batch g [1, 2, 3] = Some r \<and> (\<forall>t. current_counts r t \<le> requirements t)" for r
  proof -
    have "r = r0" using that r0(1) by simp
    then have "\<forall>t. current_counts final t \<le> requirements t"
      using that r0(3) by (metis max.absorb1 order_trans)
    then show ?thesis using st(2) overgenerated_empty_iff by blast
  qed
  show "8 \<le> total_questions final \<and> total_questions final = count_all final
      \<and> (total_questions final = 8 \<longleftrightarrow> snd (snd (check_question_requirements final)) = [])
      \<and> (\<forall>r. first_batch g [1, 2, 3] = Some r \<and> (\<forall>t. current_counts r t \<le> requirements t)
             \<longrightarrow> total_questions final = 8)"
    using st r0(2) quota by blast
next
  assume a: "challenge_session g' = (how', Some cfinal)
        \<and> fst (check_challenge_requirements cfinal) = 0"
  then have run: "challenge_attempts g' 1 None = (how', Some cfinal)"
    by (simp add: challenge_session_def)
  from challenge_attempts_None[OF run] obtain r0 where r0:
    "first_challenge_batch g' [1, 2, 3] = Some r0"
    "total_challenges cfinal = length (challenges cfinal)"
    "length (challenges r0) \<le> length (challenges cfinal)"
    "int (length (challenges cfinal)) \<le> max required_challenges (int (length (challenges r0)))"
    unfolding attempts_list by blast
  have ge: "5 \<le> length (challenges cfinal)"
    using a by (simp add: check_challenge_requirements_def required_challenges_def Let_def max_def
        split: if_splits)
  have quota: "total_challenges cfinal = 5"
    if "first_challenge_batch g' [1, 2, 3] = Some r \<and> length (challenges r) \<le> 5" for r
  proof -
    have "r = r0" using that r0(1) by simp
    then have "int (length (challenges cfinal)) \<le> 5"
      using that r0(4) by (simp add: required_challenges_def)
    then show ?thesis using ge r0(2) by simp
  qed
  show "5 \<le> total_challenges cfinal \<and> total_challenges cfinal = length (challenges cfinal)
      \<and> (\<forall>r. first_challenge_batch g' [1, 2, 3] = Some r \<and> length (challenges r) \<le> 5
             \<longrightarrow> total_challenges cfinal = 5)"
  proof (intro conjI allI impI)
    show "5 \<le> total_challenges cfinal" using ge r0(2) by simp
    show "total_challenges cfinal = length (challenges cfinal)" by (rule r0(2))
    show "total_challenges cfinal = 5"
      if "first_challenge_batch g' [1, 2, 3] = Some r \<and> length (challenges r) \<le> 5" for r
      using quota[OF that] .
  qed
qed

text \<open>
  C1 (amended). After a session ends, the number of accumulated items of each
  requirement is at most its quota or, if larger, the number the first batch of the
  session had: the first batch becomes the accumulator as it was parsed, and a merge
  never lifts a requirement above its quota. So a session whose first batch is within
  the quota everywhere ends within the quota everywhere. The same holds for the
  challenges with their quota of 5.
\<close>

theorem accumulated_within_quota_or_first_batch:
  "(question_session g = (how, Some final) \<longrightarrow>
      (\<exists>r. first_batch g [1, 2, 3] = Some r
         \<and> (\<forall>t. current_counts final t \<le> max (requirements t) (current_counts r t))
         \<and> ((\<forall>t. current_counts r t \<le> requirements t)
              \<longrightarrow> (\<forall>t. current_counts final t \<le> requirements t))))
   \<and> (challenge_session g' = (how', Some cfinal) \<longrightarrow>
      (\<exists>r. first_challenge_batch g' [1, 2, 3] = Some r
         \<and> int (length (challenges cfinal))
              \<le> max required_challenges (int (length (challenges r)))
         \<and> (int (length (challenges r)) \<le> required_challenges
              \<longrightarrow> int (length (challenges cfinal)) \<le> required_challenges)))
   \<and> (\<forall>t. current_counts (merge_questions e new (fst (check_question_requirements e))) t
            \<le> max (requirements t) (current_counts e t))
   \<and> int (length (challenges (merge_challenges ce cnew (fst (check_challenge_requirements ce)))))
        \<le> max required_challenges (int (length (challenges ce)))"
proof (intro conjI impI)
  assume "question_session g = (how, Some final)"
  then have run: "question_attempts g 1 None = (how, Some final)"
    by (simp add: question_session_def)
  from question_attempts_None[OF run] obtain r0 where r0:
    "first_batch g [1, 2, 3] = Some r0"
    "\<forall>t. current_counts r0 t \<le> current_counts final t
         \<and> current_counts final t \<le> max (requirements t) (current_counts r0 t)"
    unfolding attempts_list by blast
  have "(\<forall>t. current_counts r0 t \<le> requirements t)
              \<longrightarrow> (\<forall>t. current_counts final t \<le> requirements t)"
    using r0(2) by (metis max.absorb1 order_trans)
  then show "\<exists>r. first_batch g [1, 2, 3] = Some r
         \<and> (\<forall>t. current_counts final t \<le> max (requirements t) (current_counts r t))
         \<and> ((\<forall>t. current_counts r t \<le> requirements t)
              \<longrightarrow> (\<forall>t. current_counts final t \<le> requirements t))"
    using r0 by blast
next
  assume "challenge_session g' = (how', Some cfinal)"
  then have run: "challenge_attempts g' 1 None = (how', Some cfinal)"
    by (simp add: challenge_session_def)
  from challenge_attempts_None[OF run] obtain r0 where r0:
    "first_challenge_batch g' [1, 2, 3] = Some r0"
    "int (length (challenges cfinal)) \<le> max required_challenges (int (length (challenges r0)))"
    unfolding attempts_list by blast
  then show "\<exists>r. first_challenge_batch g' [1, 2, 3] = Some r
         \<and> int (length (challenges cfinal))
              \<le> max required_challenges (int (length (challenges r)))
         \<and> (int (length (challenges r)) \<le> required_challenges
              \<longrightarrow> int (length (challenges cfinal)) \<le> required_challenges)"
    by auto
next
  show "\<forall>t. current_counts (merge_questions e new (fst (check_question_requirements e))) t
            \<le> max (requirements t) (current_counts e t)"
    using merge_bound by blast
next
  show "int (length (challenges (merge_challenges ce cnew (fst (check_challenge_requirements ce)))))
        \<le> max required_challenges (int (length (challenges ce)))"
    by (auto simp: merge_challenges_def check_challenge_requirements_def Let_def
      renumbered_challenges_def min_def max_def)
qed

lemma one_true_false_batch_parsed:
  "parse_questions ''<true_false><question><text>t0</text><answer>TRUE</answer></question></true_false>''
   = Some one_true_false_batch"
  by code_simp

lemma choice_and_true_false_batch_parsed:
  "parse_questions
     (''<multiple_choice><question><text>m1</text><options><option_a>x</option_a>'' @
      ''<option_b>y</option_b></options><answer>a</answer></question></multiple_choice>'' @
      ''<true_false><question><text>t1</text><answer>no</answer></question></true_false>'')
   = Some choice_and_true_false_batch"
  by code_simp

lemma renumbered_nth:
  "j < k \<Longrightarrow> renumbered xs n k ! j = (xs ! j)\<lparr>qid := str_nat (n + j)\<rparr>"
  by (simp add: renumbered_def)

lemma renumbered_challenges_nth:
  "j < k \<Longrightarrow> renumbered_challenges xs n k ! j = (xs ! j)\<lparr>c_id := str_nat (n + j)\<rparr>"
  by (simp add: renumbered_challenges_def)

text \<open>
  C2 (amended). Merging a later batch appends, for each question type, the first
  \<open>planned\<close> questions of the new batch's list of that type, in their order, with the
  ids that continue the count of the existing list of that same type. Over the types
  of a requirement the numbers appended add up to the lesser of the deficit computed
  before the merge and what the new batch has; a requirement with no deficit gets
  nothing; a deficit of 2 met by 5 new items takes 2. \<open>merge_challenges\<close> appends the
  first challenges of the new batch, as many as the deficit or as there are, numbered
  after the existing ones.
\<close>

theorem merge_appends_needed_items:
  "(\<forall>qt. get_questions (merged_questions e new) qt
          = get_questions e qt
            @ renumbered (get_questions new qt) (length (get_questions e qt) + 1)
                (planned e new qt))
   \<and> (\<forall>qt. planned e new qt \<le> length (get_questions new qt))
   \<and> (\<forall>qt j. j < planned e new qt \<longrightarrow>
          get_questions (merged_questions e new) qt ! (length (get_questions e qt) + j)
          = (get_questions new qt ! j)\<lparr>qid := str_nat (length (get_questions e qt) + 1 + j)\<rparr>)
   \<and> (\<forall>t. (\<Sum>qt \<leftarrow> requirements_map t. int (planned e new qt))
          = min (deficit e t) (current_counts new t))
   \<and> (\<forall>t. current_counts (merged_questions e new) t
          = current_counts e t + min (deficit e t) (current_counts new t))
   \<and> (\<forall>t. deficit e t = 0 \<longrightarrow>
          (\<forall>qt. requirement_of qt = t \<longrightarrow>
             get_questions (merged_questions e new) qt = get_questions e qt))
   \<and> (\<forall>t. deficit e t = 2 \<and> current_counts new t = 5 \<longrightarrow>
          current_counts (merged_questions e new) t = current_counts e t + 2)
   \<and> challenges (merged_challenges ce cnew)
       = challenges ce
         @ renumbered_challenges (challenges cnew) (length (challenges ce) + 1)
             (nat (min (fst (check_challenge_requirements ce)) (int (length (challenges cnew)))))
   \<and> fst (check_challenge_requirements ce)
       = max 0 (required_challenges - int (length (challenges ce)))
   \<and> (\<forall>j. j < nat (min (fst (check_challenge_requirements ce)) (int (length (challenges cnew))))
          \<longrightarrow> challenges (merged_challenges ce cnew) ! (length (challenges ce) + j)
               = (challenges cnew ! j)\<lparr>c_id := str_nat (length (challenges ce) + 1 + j)\<rparr>)
   \<and> (length (challenges ce) = 3 \<and> length (challenges cnew) = 5 \<longrightarrow>
          length (challenges (merged_challenges ce cnew)) = 5)"
proof -
  have q1: "get_questions (merged_questions e new) qt
          = get_questions e qt
            @ renumbered (get_questions new qt) (length (get_questions e qt) + 1)
                (planned e new qt)" for qt
    by (rule merge_questions_get)
  have q3: "get_questions (merged_questions e new) qt ! (length (get_questions e qt) + j)
          = (get_questions new qt ! j)\<lparr>qid := str_nat (length (get_questions e qt) + 1 + j)\<rparr>"
    if "j < planned e new qt" for qt j
    using that by (simp add: q1 nth_append renumbered_nth)
  have q6: "get_questions (merged_questions e new) qt = get_questions e qt"
    if "deficit e t = 0" "requirement_of qt = t" for t qt
  proof -
    have "planned e new qt = 0" using that by (cases qt) auto
    then show ?thesis by (simp add: q1)
  qed
  have c1: "challenges (merged_challenges ce cnew)
       = challenges ce
         @ renumbered_challenges (challenges cnew) (length (challenges ce) + 1)
             (nat (min (fst (check_challenge_requirements ce)) (int (length (challenges cnew)))))"
    using merge_challenges_appends[of ce cnew]
    by (simp add: check_challenge_requirements_def Let_def)
  have c3: "challenges (merged_challenges ce cnew) ! (length (challenges ce) + j)
               = (challenges cnew ! j)\<lparr>c_id := str_nat (length (challenges ce) + 1 + j)\<rparr>"
    if "j < nat (min (fst (check_challenge_requirements ce)) (int (length (challenges cnew))))"
    for j
    using that by (simp add: c1 nth_append renumbered_challenges_nth)
  have c4: "length (challenges (merged_challenges ce cnew)) = 5"
    if "length (challenges ce) = 3 \<and> length (challenges cnew) = 5"
  proof -
    have "challenges cnew \<noteq> []" using that by auto
    then show ?thesis
      using that
      by (simp add: merge_challenges_def renumbered_challenges_def
          check_challenge_requirements_def Let_def required_challenges_def)
  qed
  show ?thesis
    using q1 planned_le q3 planned_sum current_counts_merge q6 c1 c3 c4
    by (simp add: check_challenge_requirements_def Let_def)
qed

theorem merge_appends_needed_items_witness:
  "current_counts (merged_questions one_true_false_batch choice_and_true_false_batch)
     R_multiple_choice_true_false = 3
   \<and> multiple_choice_qs (merged_questions one_true_false_batch choice_and_true_false_batch) ! 0
       = (multiple_choice_qs choice_and_true_false_batch ! 0)\<lparr>qid := ''1''\<rparr>
   \<and> fill_blank_qs (merged_questions one_true_false_batch choice_and_true_false_batch) = []"
proof -
  note t = merge_appends_needed_items[where e = one_true_false_batch
      and new = choice_and_true_false_batch and ce = "\<lparr>challenges = [], total_challenges = 0\<rparr>"
      and cnew = "\<lparr>challenges = [], total_challenges = 0\<rparr>"]
  note t1 = t[THEN conjunct1, rule_format, of fill_blank]
  note t3 = t[THEN conjunct2, THEN conjunct2, THEN conjunct1, rule_format, of 0 multiple_choice]
  note t5 = t[THEN conjunct2, THEN conjunct2, THEN conjunct2, THEN conjunct2, THEN conjunct1,
      rule_format, of R_multiple_choice_true_false]
  have d: "deficit one_true_false_batch R_multiple_choice_true_false = 2"
    "current_counts choice_and_true_false_batch R_multiple_choice_true_false = 2"
    "current_counts one_true_false_batch R_multiple_choice_true_false = 1"
    by (simp_all add: deficit_def one_true_false_batch_def choice_and_true_false_batch_def)
  have p: "planned one_true_false_batch choice_and_true_false_batch multiple_choice = 1"
    "planned one_true_false_batch choice_and_true_false_batch fill_blank = 0"
    by (simp_all add: deficit_def one_true_false_batch_def choice_and_true_false_batch_def)
  have s: "str_nat (Suc 0) = ''1''" by code_simp
  have a: "current_counts (merged_questions one_true_false_batch choice_and_true_false_batch)
     R_multiple_choice_true_false = 3"
    unfolding t5 d by simp
  have "(0::nat) < planned one_true_false_batch choice_and_true_false_batch multiple_choice"
    unfolding p by simp
  from t3[OF this]
  have b: "multiple_choice_qs (merged_questions one_true_false_batch choice_and_true_false_batch) ! 0
       = (multiple_choice_qs choice_and_true_false_batch ! 0)\<lparr>qid := ''1''\<rparr>"
    by (simp add: one_true_false_batch_def s)
  have c: "fill_blank_qs (merged_questions one_true_false_batch choice_and_true_false_batch) = []"
    using t1 unfolding p by (simp add: one_true_false_batch_def)
  show ?thesis using a b c by simp
qed

text \<open>
  The claim as stated fails on the combined requirement: with one true/false question
  accumulated (the count of the requirement is 1, its deficit 2), a batch of one
  multiple choice and one true/false question is appended with the ids 1 and 2, each
  counted in its own list, not 2 and 3.
\<close>

theorem merge_ids_counterexample:
  "current_counts one_true_false_batch R_multiple_choice_true_false = 1
   \<and> map qid (multiple_choice_qs
                 (merged_questions one_true_false_batch choice_and_true_false_batch)) = [''1'']
   \<and> map qid (true_false_qs
                 (merged_questions one_true_false_batch choice_and_true_false_batch))
       = [''1'', ''2'']"
  by code_simp

lemma scenario_session_run:
  "question_session scenario_generate = (Perfect_result, Some scenario_final)"
  by code_simp

lemma scenario_first_batch:
  "first_batch scenario_generate [1, 2, 3] = Some scenario_batch_1"
  by code_simp

lemma scenario_first_batch_within:
  "\<forall>t. current_counts scenario_batch_1 t \<le> requirements t"
  unfolding all_requirement_types by (simp add: scenario_batch_1_def)

theorem accumulated_within_quota_or_first_batch_witness:
  "question_session scenario_generate = (Perfect_result, Some scenario_final)
   \<and> first_batch scenario_generate [1, 2, 3] = Some scenario_batch_1
   \<and> (\<forall>t. current_counts scenario_batch_1 t \<le> requirements t)
   \<and> (\<forall>t. current_counts scenario_final t \<le> requirements t)"
proof -
  from accumulated_within_quota_or_first_batch[where g = scenario_generate
      and how = Perfect_result and final = scenario_final
      and g' = "always_returns []" and how' = Attempts_used_up
      and cfinal = "\<lparr>challenges = [], total_challenges = 0\<rparr>"
      and e = one_true_false_batch and new = one_true_false_batch
      and ce = "\<lparr>challenges = [], total_challenges = 0\<rparr>"
      and cnew = "\<lparr>challenges = [], total_challenges = 0\<rparr>", THEN conjunct1]
    scenario_session_run
  obtain r where r: "first_batch scenario_generate [1, 2, 3] = Some r"
    "(\<forall>t. current_counts r t \<le> requirements t)
       \<longrightarrow> (\<forall>t. current_counts scenario_final t \<le> requirements t)"
    by blast
  have "r = scenario_batch_1"
    using r(1) scenario_first_batch by simp
  then have "\<forall>t. current_counts scenario_final t \<le> requirements t"
    using r(2) scenario_first_batch_within by blast
  then show ?thesis
    using scenario_session_run scenario_first_batch scenario_first_batch_within by blast
qed

text \<open>
  The claim as stated fails when the first batch is overfull: a session whose
  responses all hold three fill blank questions ends with three of them accumulated,
  against a quota of two.
\<close>

theorem first_batch_exceeds_quota_counterexample:
  "question_session (always_returns three_fill_blank_response)
     = (Attempts_used_up, Some three_fill_blank_batch)
   \<and> current_counts three_fill_blank_batch R_fill_blank = 3
   \<and> requirements R_fill_blank = 2"
  by code_simp

theorem success_total_witness:
  "question_session scenario_generate = (Perfect_result, Some scenario_final)
   \<and> fst (check_question_requirements scenario_final) = []
   \<and> total_questions scenario_final = 8"
proof -
  have m: "fst (check_question_requirements scenario_final) = []"
    by (simp add: check_question_requirements_def requirement_types_def scenario_final_def)
  note t = success_total[where g = scenario_generate
      and how = Perfect_result and final = scenario_final
      and g' = "always_returns []" and how' = Attempts_used_up
      and cfinal = "\<lparr>challenges = [], total_challenges = 0\<rparr>", THEN conjunct1, rule_format]
  have "\<forall>r. first_batch scenario_generate [1, 2, 3] = Some r
              \<and> (\<forall>t. current_counts r t \<le> requirements t)
          \<longrightarrow> total_questions scenario_final = 8"
    using t[OF conjI[OF scenario_session_run m]] by blast
  then have "total_questions scenario_final = 8"
    using scenario_first_batch scenario_first_batch_within by blast
  then show ?thesis using m scenario_session_run by simp
qed

text \<open>
  The claim as stated fails when the first batch is overfull: a session whose first
  response holds nine questions, none of the four requirements short, ends with every
  deficit zero and nine questions; a challenge session whose first response holds six
  challenges ends with deficit zero and six challenges.
\<close>

theorem success_total_counterexample:
  "question_session (always_returns nine_questions_response)
     = (Overgeneration_stop, Some nine_questions_batch)
   \<and> fst (check_question_requirements nine_questions_batch) = []
   \<and> total_questions nine_questions_batch = 9
   \<and> challenge_session (always_returns six_challenges_response)
       = (All_required, Some six_challenges_batch)
   \<and> fst (check_challenge_requirements six_challenges_batch) = 0
   \<and> total_challenges six_challenges_batch = 6"
  by code_simp

section \<open>The question parser\<close>

text \<open>
  C10. \<open>parse_questions\<close> fails exactly when none of the five categories yields a
  question; otherwise its result holds what the categories yield, and
  \<open>total_questions\<close> is the sum of the lengths of the five lists and at least 1.
\<close>

theorem parse_questions_total_is_sum:
  "(parse_questions s = None \<longleftrightarrow>
      category_block ''multiple_choice'' parse_multiple_choice_questions s = []
      \<and> category_block ''true_false'' parse_true_false_questions s = []
      \<and> category_block ''fill_blank'' parse_fill_blank_questions s = []
      \<and> category_block ''short_answer'' parse_short_answer_questions s = []
      \<and> category_block ''free_recall'' parse_free_recall_questions s = [])
   \<and> (\<forall>r. parse_questions s = Some r \<longrightarrow>
          multiple_choice_qs r = category_block ''multiple_choice'' parse_multiple_choice_questions s
          \<and> true_false_qs r = category_block ''true_false'' parse_true_false_questions s
          \<and> fill_blank_qs r = category_block ''fill_blank'' parse_fill_blank_questions s
          \<and> short_answer_qs r = category_block ''short_answer'' parse_short_answer_questions s
          \<and> free_recall_qs r = category_block ''free_recall'' parse_free_recall_questions s
          \<and> total_questions r
              = length (multiple_choice_qs r) + length (true_false_qs r)
                + length (fill_blank_qs r) + length (short_answer_qs r)
                + length (free_recall_qs r)
          \<and> 1 \<le> total_questions r)"
  by (auto simp: parse_questions_def Let_def Suc_le_eq)

lemma scenario_batch_1_parsed: "parse_questions scenario_response_1 = Some scenario_batch_1"
  by code_simp

theorem parse_questions_total_is_sum_witness:
  "parse_questions scenario_response_1 = Some scenario_batch_1
   \<and> total_questions scenario_batch_1 = 5
   \<and> parse_questions ''<questions>none</questions>'' = None"
proof -
  note t = parse_questions_total_is_sum[of scenario_response_1, THEN conjunct2, rule_format,
      OF scenario_batch_1_parsed]
  have "total_questions scenario_batch_1
              = length (multiple_choice_qs scenario_batch_1) + length (true_false_qs scenario_batch_1)
                + length (fill_blank_qs scenario_batch_1) + length (short_answer_qs scenario_batch_1)
                + length (free_recall_qs scenario_batch_1)"
    using t by blast
  then have a: "total_questions scenario_batch_1 = 5"
    by (simp add: scenario_batch_1_def)
  have "category_block ''multiple_choice'' parse_multiple_choice_questions
          ''<questions>none</questions>'' = []
      \<and> category_block ''true_false'' parse_true_false_questions ''<questions>none</questions>'' = []
      \<and> category_block ''fill_blank'' parse_fill_blank_questions ''<questions>none</questions>'' = []
      \<and> category_block ''short_answer'' parse_short_answer_questions
            ''<questions>none</questions>'' = []
      \<and> category_block ''free_recall'' parse_free_recall_questions
            ''<questions>none</questions>'' = []"
    by code_simp
  then have b: "parse_questions ''<questions>none</questions>'' = None"
    using parse_questions_total_is_sum[of "''<questions>none</questions>''", THEN conjunct1]
    by blast
  show ?thesis using scenario_batch_1_parsed a b by blast
qed

section \<open>The multiple choice validator\<close>

lemma mc_loop_filter:
  "mc_loop blocks questions
   = questions
     @ filter (\<lambda>q. fst (validate_multiple_choice_question q))
         (List.map_filter (\<lambda>(i, question_content). mc_question_data i question_content) blocks)"
proof (induction blocks arbitrary: questions)
  case Nil
  show ?case by (simp add: List.map_filter_simps)
next
  case (Cons b blocks)
  obtain i c where b: "b = (i, c)" by (cases b)
  show ?case
    unfolding b by (simp add: Cons.IH List.map_filter_simps split: option.splits)
qed

text \<open>
  C6. A multiple choice record with a non-empty answer key, as every extracted record
  has, is accepted exactly when the key is one of the option keys present and the text
  of that option is not empty. A rejected record carries one of the reasons, an
  accepted one none. \<open>_parse_multiple_choice_questions\<close> returns the extracted records
  that are accepted, as they were extracted, and drops the others. A record with the
  answer key \<open>e\<close> and the options \<open>a\<close>..\<open>d\<close> is rejected, the reason being that the
  key is not among the keys \<open>a\<close>, \<open>b\<close>, \<open>c\<close>, \<open>d\<close>.
\<close>

theorem multiple_choice_validation:
  "(\<forall>a. correct_answer q = Str a \<and> a \<noteq> [] \<longrightarrow>
        (fst (validate_multiple_choice_question q)
           \<longleftrightarrow> a \<in> fst ` set (options q)
               \<and> (\<exists>v. map_of (options q) a = Some v \<and> v \<noteq> [])))
   \<and> (fst (validate_multiple_choice_question q)
        \<longleftrightarrow> snd (validate_multiple_choice_question q) = None)
   \<and> (\<forall>i blk q'. mc_question_data i blk = Some q' \<longrightarrow>
          (\<exists>a. correct_answer q' = Str a \<and> a \<noteq> []) \<and> options q' \<noteq> [])
   \<and> parse_multiple_choice_questions s
       = filter (\<lambda>q. fst (validate_multiple_choice_question q)) (mc_candidates s)
   \<and> (\<forall>x y z w. options q = [(''a'', x), (''b'', y), (''c'', z), (''d'', w)]
          \<and> correct_answer q = Str ''e'' \<longrightarrow>
          validate_multiple_choice_question q
          = (False, Some (Correct_answer_not_found ''e'' [''a'', ''b'', ''c'', ''d''])))"
proof -
  have h1: "fst (validate_multiple_choice_question q)
           \<longleftrightarrow> a \<in> fst ` set (options q)
               \<and> (\<exists>v. map_of (options q) a = Some v \<and> v \<noteq> [])"
    if "correct_answer q = Str a \<and> a \<noteq> []" for a
    using that
    by (auto simp: validate_multiple_choice_question_def map_of_eq_None_iff
        split: option.splits dest: map_of_SomeD intro: rev_image_eqI)
  have h2: "fst (validate_multiple_choice_question q)
        \<longleftrightarrow> snd (validate_multiple_choice_question q) = None"
    by (auto simp: validate_multiple_choice_question_def
        split: option.splits answer_value.splits)
  have h3: "(\<exists>a. correct_answer q' = Str a \<and> a \<noteq> []) \<and> options q' \<noteq> []"
    if "mc_question_data i blk = Some q'" for i blk q'
    using that
    by (auto simp: mc_question_data_def parse_simple_xml_tag_def Let_def
        split: option.splits if_splits prod.splits)
  have h4: "parse_multiple_choice_questions s
       = filter (\<lambda>q. fst (validate_multiple_choice_question q)) (mc_candidates s)"
    by (simp add: parse_multiple_choice_questions_def mc_candidates_def mc_loop_filter)
  have h5: "validate_multiple_choice_question q
          = (False, Some (Correct_answer_not_found ''e'' [''a'', ''b'', ''c'', ''d'']))"
    if "options q = [(''a'', x), (''b'', y), (''c'', z), (''d'', w)]
          \<and> correct_answer q = Str ''e''" for x y z w
    using that by (simp add: validate_multiple_choice_question_def)
  show ?thesis
    apply (intro conjI allI impI)
    subgoal for a by (rule h1)
    subgoal by (rule h2)
    subgoal for i blk q' using h3 by blast
    subgoal for i blk q' using h3 by blast
    subgoal by (rule h4)
    subgoal for x y z w by (rule h5)
    done
qed

lemma two_choice_block_candidates:
  "mc_candidates two_choice_block = [choice_accepted, choice_rejected]"
  by code_simp

theorem multiple_choice_validation_witness:
  "mc_candidates two_choice_block = [choice_accepted, choice_rejected]
   \<and> parse_multiple_choice_questions two_choice_block = [choice_accepted]
   \<and> validate_multiple_choice_question choice_rejected
       = (False, Some (Correct_answer_not_found ''e'' [''a'', ''b'', ''c'', ''d'']))"
proof -
  note t = multiple_choice_validation[where q = choice_rejected and s = two_choice_block]
  note t1 = t[THEN conjunct1, rule_format, of "''e''"]
  note t4 = t[THEN conjunct2, THEN conjunct2, THEN conjunct2, THEN conjunct1]
  note t5 = t[THEN conjunct2, THEN conjunct2, THEN conjunct2, THEN conjunct2, rule_format,
      of "''p''" "''q''" "''r''" "''s''"]
  have r: "validate_multiple_choice_question choice_rejected
       = (False, Some (Correct_answer_not_found ''e'' [''a'', ''b'', ''c'', ''d'']))"
    by (rule t5) (simp add: choice_rejected_def)
  have a: "fst (validate_multiple_choice_question choice_accepted)"
    using multiple_choice_validation[where q = choice_accepted and s = two_choice_block,
        THEN conjunct1, rule_format, of "''b''"]
    by (simp add: choice_accepted_def)
  have "parse_multiple_choice_questions two_choice_block = [choice_accepted]"
    unfolding t4 two_choice_block_candidates using a r by simp
  then show ?thesis using two_choice_block_candidates r by simp
qed

section \<open>Boolean fields\<close>

lemma simple_loop_map:
  "simple_loop mk blocks questions
   = questions
     @ map (\<lambda>(i, t, a). mk i t a)
         (List.map_filter
            (\<lambda>(i, question_content).
               case (parse_simple_xml_tag question_content ''text'',
                     parse_simple_xml_tag question_content ''answer'') of
                 (Some t, Some a) \<Rightarrow> Some (i, t, a)
               | _ \<Rightarrow> None) blocks)"
proof (induction blocks arbitrary: questions)
  case Nil
  show ?case by (simp add: List.map_filter_simps)
next
  case (Cons b blocks)
  obtain i c where b: "b = (i, c)" by (cases b)
  show ?case
    unfolding b by (simp add: Cons.IH List.map_filter_simps split: option.splits)
qed

text \<open>
  C9 (amended). Only the \<open>is_correct\<close> field of an answer evaluation is checked against
  a vocabulary: the evaluation is accepted only if the field, lowercased and stripped,
  is one of \<open>yes\<close>, \<open>no\<close>, \<open>s\<close> + i acute, \<open>si\<close>, \<open>true\<close>, \<open>false\<close>, \<open>1\<close>, \<open>0\<close>, and
  any other token rejects the record. The answer of a true/false question and the
  \<open>ready_to_submit\<close> field of a challenge feedback are not checked: every question
  block with a text and an answer is accepted, with the answer true exactly when the
  token lowercased is \<open>true\<close>, and every feedback block with its six fields is accepted,
  with \<open>ready_to_submit\<close> true exactly when the token lowercased and stripped is \<open>yes\<close>.
\<close>

theorem boolean_fields:
  "(\<forall>r. parse_answer_evaluation s = Some r \<longrightarrow>
        (\<exists>tok. parse_simple_xml_tag s ''is_correct'' = Some tok
           \<and> strip (lower tok) \<in> set is_correct_vocabulary
           \<and> is_correct r = (strip (lower tok) \<in> set is_correct_affirmative)))
   \<and> (\<forall>tok. parse_simple_xml_tag s ''is_correct'' = Some tok
          \<and> strip (lower tok) \<notin> set is_correct_vocabulary \<longrightarrow>
          parse_answer_evaluation s = None)
   \<and> parse_true_false_questions c
       = map (\<lambda>(i, t, a).
                \<lparr>qid = str_nat i, qtext = t, options = [],
                 correct_answer = Bool (lower a = ''true''), sample_answer = None,
                 qtype = true_false\<rparr>) (text_and_answer c)
   \<and> (\<forall>e blk d st ar su ov tok.
          search_block ''challenge_feedback'' f = Some (e, blk)
          \<and> parse_simple_xml_tag blk ''delivered'' = Some d
          \<and> parse_simple_xml_tag blk ''strengths'' = Some st
          \<and> parse_simple_xml_tag blk ''areas_for_improvement'' = Some ar
          \<and> parse_simple_xml_tag blk ''suggestions'' = Some su
          \<and> parse_simple_xml_tag blk ''overall_assessment'' = Some ov
          \<and> parse_simple_xml_tag blk ''ready_to_submit'' = Some tok \<longrightarrow>
          parse_challenge_feedback f
          = Some \<lparr>delivered = strip d, strengths = strip st, areas_for_improvement = strip ar,
                  suggestions = strip su, overall_assessment = strip ov,
                  ready_to_submit = (strip (lower tok) = ''yes'')\<rparr>)"
proof -
  have h1: "\<exists>tok. parse_simple_xml_tag s ''is_correct'' = Some tok
           \<and> strip (lower tok) \<in> set is_correct_vocabulary
           \<and> is_correct r = (strip (lower tok) \<in> set is_correct_affirmative)"
    if "parse_answer_evaluation s = Some r" for r
    using that
    by (auto simp: parse_answer_evaluation_def Let_def split: if_splits option.splits)
  have h2: "parse_answer_evaluation s = None"
    if "parse_simple_xml_tag s ''is_correct'' = Some tok
          \<and> strip (lower tok) \<notin> set is_correct_vocabulary" for tok
    using that
    by (auto simp: parse_answer_evaluation_def Let_def split: if_splits option.splits)
  have h3: "parse_true_false_questions c
       = map (\<lambda>(i, t, a).
                \<lparr>qid = str_nat i, qtext = t, options = [],
                 correct_answer = Bool (lower a = ''true''), sample_answer = None,
                 qtype = true_false\<rparr>) (text_and_answer c)"
    by (simp add: parse_true_false_questions_def text_and_answer_def simple_loop_map)
  have h4: "parse_challenge_feedback f
          = Some \<lparr>delivered = strip d, strengths = strip st, areas_for_improvement = strip ar,
                  suggestions = strip su, overall_assessment = strip ov,
                  ready_to_submit = (strip (lower tok) = ''yes'')\<rparr>"
    if "search_block ''challenge_feedback'' f = Some (e, blk)
          \<and> parse_simple_xml_tag blk ''delivered'' = Some d
          \<and> parse_simple_xml_tag blk ''strengths'' = Some st
          \<and> parse_simple_xml_tag blk ''areas_for_improvement'' = Some ar
          \<and> parse_simple_xml_tag blk ''suggestions'' = Some su
          \<and> parse_simple_xml_tag blk ''overall_assessment'' = Some ov
          \<and> parse_simple_xml_tag blk ''ready_to_submit'' = Some tok"
    for e blk d st ar su ov tok
    using that by (simp add: parse_challenge_feedback_def)
  show ?thesis
    apply (intro conjI allI impI)
    subgoal for r by (rule h1)
    subgoal for tok by (rule h2)
    subgoal by (rule h3)
    subgoal for e blk d st ar su ov tok by (rule h4)
    done
qed

lemma evaluation_maybe_token:
  "parse_simple_xml_tag evaluation_maybe_response ''is_correct'' = Some ''maybe''"
  "strip (lower ''maybe'') \<notin> set is_correct_vocabulary"
  by code_simp+

lemma evaluation_si_parsed:
  "parse_answer_evaluation evaluation_si_response = Some \<lparr>is_correct = True, feedback = ''bien''\<rparr>"
  by code_simp

theorem boolean_fields_witness:
  "parse_answer_evaluation evaluation_maybe_response = None
   \<and> parse_answer_evaluation evaluation_si_response
       = Some \<lparr>is_correct = True, feedback = ''bien''\<rparr>
   \<and> strip (lower (the (parse_simple_xml_tag evaluation_si_response ''is_correct'')))
       \<in> set is_correct_vocabulary"
proof -
  note t = boolean_fields[where s = evaluation_maybe_response and c = "[]" and f = "[]"]
  have a: "parse_answer_evaluation evaluation_maybe_response = None"
    using t[THEN conjunct2, THEN conjunct1, rule_format, of "''maybe''"] evaluation_maybe_token
    by blast
  from boolean_fields[where s = evaluation_si_response and c = "[]" and f = "[]",
      THEN conjunct1, rule_format, OF evaluation_si_parsed]
  obtain tok where "parse_simple_xml_tag evaluation_si_response ''is_correct'' = Some tok"
    "strip (lower tok) \<in> set is_correct_vocabulary" by blast
  then have "strip (lower (the (parse_simple_xml_tag evaluation_si_response ''is_correct'')))
       \<in> set is_correct_vocabulary" by simp
  then show ?thesis using a evaluation_si_parsed by blast
qed

text \<open>
  The claim as stated fails for two of the three fields: a true/false question
  answered \<open>maybe\<close> is accepted with the answer false, and a challenge feedback whose
  \<open>ready_to_submit\<close> is \<open>maybe\<close> is accepted with the field false.
\<close>

theorem boolean_token_coerced_counterexample:
  "parse_true_false_questions true_false_maybe_block
     = [\<lparr>qid = ''1'', qtext = ''q'', options = [], correct_answer = Bool False,
         sample_answer = None, qtype = true_false\<rparr>]
   \<and> parse_challenge_feedback feedback_maybe_response
       = Some \<lparr>delivered = ''x'', strengths = ''s'', areas_for_improvement = ''a'',
               suggestions = ''g'', overall_assessment = ''o'', ready_to_submit = False\<rparr>"
  by code_simp

section \<open>Sections\<close>




























lemma length_number_sections [simp]: "length (number_sections texts) = length texts"
  by (simp add: number_sections_def)









section \<open>Properties of the feedback queue\<close>

lemma position_loop_count:
  "position_loop tr c p =
     p + length (filter (\<lambda>(k, i). status i = TASK_STATUS_PENDING \<and> created_at i < c) tr)"
proof (induction tr arbitrary: p)
  case Nil
  show ?case by simp
next
  case (Cons x tr)
  obtain k i where x: "x = (k, i)" by (cases x)
  show ?case unfolding x by (simp add: Cons.IH)
qed

lemma earlier_pending_self:
  assumes "distinct (map fst tr)" and "map_of tr tid = Some info"
  shows "filter (\<lambda>(k, i). status i = TASK_STATUS_PENDING \<and> created_at i < created_at info) tr
         = earlier_pending tr tid (created_at info)"
proof -
  have "\<And>k i. (k, i) \<in> set tr \<Longrightarrow> k = tid \<Longrightarrow> i = info"
    using assms by (metis map_of_is_SomeI option.inject)
  then have "\<And>x. x \<in> set tr \<Longrightarrow>
      (case x of (k, i) \<Rightarrow> status i = TASK_STATUS_PENDING \<and> created_at i < created_at info)
      = (case x of (k, i) \<Rightarrow> k \<noteq> tid \<and> status i = TASK_STATUS_PENDING
                               \<and> created_at i < created_at info)"
    by auto
  then show ?thesis
    unfolding earlier_pending_def by (rule filter_cong[OF refl])
qed

lemma enqueue3_results:
  assumes "t1 \<noteq> t2" "t1 \<noteq> t3" "t2 \<noteq> t3"
  shows "task_results (enqueue3 t1 c1 t2 c2 t3 c3)
         = [(t1, pending_entry c1), (t2, pending_entry c2), (t3, pending_entry c3)]"
  using assms
  by (simp add: enqueue3_def create_feedback_task_def initial_queue_state_def maxsize_def
      Let_def pending_entry_def)

text \<open>
  C7. When the queue holds \<open>maxsize\<close> tasks, \<open>create_feedback_task\<close> returns the
  error \<open>ValueError "Feedback queue is full. Please try again later."\<close> as its
  result (the model has no blocking branch: the call is \<open>put_nowait\<close>), the state is
  the one before the call, so the entry registered for the new task id is gone, and
  \<open>get_task_status\<close> finds nothing under that id. The new id is one that
  \<open>task_results\<close> does not hold yet, as a fresh UUID is.
\<close>

theorem enqueue_full_queue_fails_unchanged:
  assumes full: "feedback_queue st = Some q" "length q = maxsize"
      and fresh: "tid \<notin> fst ` set (task_results st)"
  shows "create_feedback_task st tid now cid title imgs src
           = (Inl (ValueError ''Feedback queue is full. Please try again later.''), st)
         \<and> get_task_status (snd (create_feedback_task st tid now cid title imgs src)) tid = None"
proof -
  have 1: "create_feedback_task st tid now cid title imgs src
           = (Inl (ValueError ''Feedback queue is full. Please try again later.''), st)"
    using full fresh by (simp add: create_feedback_task_def Let_def AList.delete_update_same)
  have "map_of (task_results st) tid = None"
    using fresh by (simp add: map_of_eq_None_iff)
  then have 2: "get_task_status st tid = None"
    by (simp add: get_task_status_def)
  show ?thesis using 1 2 by simp
qed

lemma full_queue_state_fresh: "''new-task'' \<notin> fst ` set (task_results full_queue_state)"
  by (simp add: full_queue_state_def image_image) code_simp

theorem enqueue_full_queue_fails_unchanged_witness:
  "create_feedback_task full_queue_state ''new-task'' ''2025-01-01T11:00:00'' ''c1'' ''A title''
       True ''s.json''
     = (Inl (ValueError ''Feedback queue is full. Please try again later.''), full_queue_state)
   \<and> get_task_status
        (snd (create_feedback_task full_queue_state ''new-task'' ''2025-01-01T11:00:00'' ''c1''
                ''A title'' True ''s.json'')) ''new-task'' = None"
proof -
  have q: "feedback_queue full_queue_state =
      Some (map (\<lambda>n. \<lparr>task_id = str_nat n, source_file = ''f.json'',
                         task_created_at = ''2025-01-01T10:00:00''\<rparr>) [0..<100])"
    by (simp add: full_queue_state_def)
  have l: "length (map (\<lambda>n. \<lparr>task_id = str_nat n, source_file = ''f.json'',
                         task_created_at = ''2025-01-01T10:00:00''\<rparr>) [0..<100]) = maxsize"
    by (simp add: maxsize_def)
  show ?thesis
    by (rule enqueue_full_queue_fails_unchanged [OF q l full_queue_state_fresh])
qed

text \<open>
  C8. For a task that \<open>task_results\<close> holds, \<open>get_task_status\<close> reports, when the task
  is pending, the queue position 1 plus the number of the other pending tasks whose
  \<open>created_at\<close> is strictly smaller, and no queue position when the task is not pending.
  Three tasks enqueued one after the other on a fresh queue, with distinct ids and
  increasing creation times, are reported at the positions 1, 2 and 3. The creation
  time is the one the clock gives at the call: the order of the calls alone does not
  decide the positions.
\<close>

theorem queue_position_pending:
  assumes "distinct (map fst (task_results st))"
      and "map_of (task_results st) tid = Some info"
  shows "(status info = TASK_STATUS_PENDING \<longrightarrow>
            get_task_status st tid =
              Some \<lparr>task = info,
                    queue_position =
                      Some (1 + length (earlier_pending (task_results st) tid (created_at info)))\<rparr>)
       \<and> (status info \<noteq> TASK_STATUS_PENDING \<longrightarrow>
            get_task_status st tid = Some \<lparr>task = info, queue_position = None\<rparr>)
       \<and> (\<forall>t1 t2 t3 c1 c2 c3.
            t1 \<noteq> t2 \<and> t1 \<noteq> t3 \<and> t2 \<noteq> t3 \<and> c1 < c2 \<and> c2 < c3 \<longrightarrow>
            map (\<lambda>t. map_option queue_position (get_task_status (enqueue3 t1 c1 t2 c2 t3 c3) t))
              [t1, t2, t3]
            = [Some (Some 1), Some (Some 2), Some (Some 3)])"
proof (intro conjI impI allI)
  assume "status info = TASK_STATUS_PENDING"
  then show "get_task_status st tid =
              Some \<lparr>task = info,
                    queue_position =
                      Some (1 + length (earlier_pending (task_results st) tid (created_at info)))\<rparr>"
    using assms
    by (simp add: get_task_status_def get_queue_position_def position_loop_count
        earlier_pending_self)
next
  assume "status info \<noteq> TASK_STATUS_PENDING"
  then show "get_task_status st tid = Some \<lparr>task = info, queue_position = None\<rparr>"
    using assms by (simp add: get_task_status_def)
next
  fix t1 t2 t3 c1 c2 c3 :: string
  assume h: "t1 \<noteq> t2 \<and> t1 \<noteq> t3 \<and> t2 \<noteq> t3 \<and> c1 < c2 \<and> c2 < c3"
  then have r: "task_results (enqueue3 t1 c1 t2 c2 t3 c3)
      = [(t1, pending_entry c1), (t2, pending_entry c2), (t3, pending_entry c3)]"
    by (simp add: enqueue3_results)
  from h have c: "c1 < c2" "c2 < c3" "c1 < c3" "\<not> c2 < c1" "\<not> c3 < c1" "\<not> c3 < c2"
    "\<not> c1 < c1" "\<not> c2 < c2" "\<not> c3 < c3" by auto
  from h have t: "t1 \<noteq> t2" "t1 \<noteq> t3" "t2 \<noteq> t3" "t2 \<noteq> t1" "t3 \<noteq> t1" "t3 \<noteq> t2"
    by auto
  show "map (\<lambda>t. map_option queue_position (get_task_status (enqueue3 t1 c1 t2 c2 t3 c3) t))
              [t1, t2, t3]
            = [Some (Some 1), Some (Some 2), Some (Some 3)]"
    by (simp add: get_task_status_def get_queue_position_def r c t pending_entry_def)
qed

theorem queue_position_pending_witness:
  "get_task_status (enqueue3 ''T1'' ''2025-01-01T10:00:00'' ''T2'' ''2025-01-01T10:00:00.000250''
        ''T3'' ''2025-01-01T10:00:01.5'') ''T2''
     = Some \<lparr>task = pending_entry ''2025-01-01T10:00:00.000250'', queue_position = Some 2\<rparr>
   \<and> map (\<lambda>t. map_option queue_position (get_task_status
        (enqueue3 ''T1'' ''2025-01-01T10:00:00'' ''T2'' ''2025-01-01T10:00:00.000250''
        ''T3'' ''2025-01-01T10:00:01.5'') t)) [''T1'', ''T2'', ''T3'']
            = [Some (Some 1), Some (Some 2), Some (Some 3)]"
  using queue_position_pending [of "enqueue3 ''T1'' ''2025-01-01T10:00:00'' ''T2''
        ''2025-01-01T10:00:00.000250'' ''T3'' ''2025-01-01T10:00:01.5''" "''T2''"
        "pending_entry ''2025-01-01T10:00:00.000250''"]
  by (simp add: enqueue3_results earlier_pending_def pending_entry_def)

text \<open>
  Three tasks enqueued one after the other at the same reading of the clock: each is
  pending, none was created strictly before another, and all three are reported at
  position 1.
\<close>

theorem equal_creation_times_counterexample:
  "map_option status
      (map_of (task_results (enqueue3 ''T1'' ''2025-01-01T10:00:00'' ''T2'' ''2025-01-01T10:00:00''
                 ''T3'' ''2025-01-01T10:00:00'')) ''T2'') = Some TASK_STATUS_PENDING
   \<and> map_option queue_position
        (get_task_status (enqueue3 ''T1'' ''2025-01-01T10:00:00'' ''T2'' ''2025-01-01T10:00:00''
           ''T3'' ''2025-01-01T10:00:00'') ''T1'') = Some (Some 1)
   \<and> map_option queue_position
        (get_task_status (enqueue3 ''T1'' ''2025-01-01T10:00:00'' ''T2'' ''2025-01-01T10:00:00''
           ''T3'' ''2025-01-01T10:00:00'') ''T2'') = Some (Some 1)
   \<and> map_option queue_position
        (get_task_status (enqueue3 ''T1'' ''2025-01-01T10:00:00'' ''T2'' ''2025-01-01T10:00:00''
           ''T3'' ''2025-01-01T10:00:00'') ''T3'') = Some (Some 1)"
  by code_simp

end
